theory Spec2Isabelle
  imports Complex_Main
begin

section \<open>JavaScript values used by the project home screen\<close>

text \<open>
  A JavaScript number is a double; the screen only converts decimal text to numbers and
  compares a distance with a constant, so a number is modelled as an exact rational, NaN
  or an infinity. Rounding to the nearest double is not modelled.
\<close>

datatype jsnum = NaN | Num rat | PosInfinity | NegInfinity

text \<open>The value of a \<open>latitude\<close> or \<open>longitude\<close> property: \<open>null\<close>, \<open>undefined\<close> or a number.\<close>

datatype coordinate = Null | Undefined | Coord jsnum

text \<open>\<open>a <= b\<close> on numbers: every comparison with NaN is false.\<close>

fun js_le :: "jsnum \<Rightarrow> jsnum \<Rightarrow> bool" where
  "js_le NaN b = False"
| "js_le a NaN = False"
| "js_le NegInfinity b = True"
| "js_le a PosInfinity = True"
| "js_le PosInfinity b = False"
| "js_le a NegInfinity = False"
| "js_le (Num x) (Num y) = (x \<le> y)"

text \<open>\<open>v == null\<close> (loose equality): true for \<open>null\<close> and \<open>undefined\<close> only.\<close>

fun eq_null :: "coordinate \<Rightarrow> bool" where
  "eq_null Null = True"
| "eq_null Undefined = True"
| "eq_null (Coord n) = False"

subsection \<open>\<open>Number(string)\<close>\<close>

text \<open>
  The conversion of a string to a number (ECMAScript StringToNumber): white space is
  trimmed; the empty string is 0; the rest is a binary, octal or hexadecimal integer
  literal, or an optionally signed decimal literal (\<open>Infinity\<close>, digits with an optional
  fraction and exponent); anything else is NaN.
\<close>

definition isStrWhiteSpaceChar :: "char \<Rightarrow> bool" where
  "isStrWhiteSpaceChar c = (c \<in> set [CHR 0x09, CHR 0x0A, CHR 0x0B, CHR 0x0C, CHR 0x0D, CHR 0x20])"

definition trim :: "string \<Rightarrow> string" where
  "trim s = rev (dropWhile isStrWhiteSpaceChar (rev (dropWhile isStrWhiteSpaceChar s)))"

definition digitOf :: "char \<Rightarrow> nat option" where
  "digitOf c = map_of
     (zip ''0123456789abcdef'' [0, 1, 2, 3, 4, 5, 6, 7, 8, 9, 10, 11, 12, 13, 14, 15] @
      zip ''ABCDEF'' [10, 11, 12, 13, 14, 15]) c"

fun radixValue :: "nat \<Rightarrow> nat \<Rightarrow> string \<Rightarrow> nat option" where
  "radixValue r acc [] = Some acc"
| "radixValue r acc (c # cs) =
     (case digitOf c of
        None \<Rightarrow> None
      | Some d \<Rightarrow> if d < r then radixValue r (acc * r + d) cs else None)"

text \<open>A non-empty run of digits of the radix, as its value.\<close>

definition digitsValue :: "nat \<Rightarrow> string \<Rightarrow> nat option" where
  "digitsValue r ds = (if ds = [] then None else radixValue r 0 ds)"

definition isDecimalDigit :: "char \<Rightarrow> bool" where
  "isDecimalDigit c = (c \<in> set ''0123456789'')"

definition nonDecimalIntegerLiteral :: "string \<Rightarrow> nat option" where
  "nonDecimalIntegerLiteral s =
     (case s of
        z # p # ds \<Rightarrow>
          if z \<noteq> CHR ''0'' then None
          else if p = CHR ''x'' \<or> p = CHR ''X'' then digitsValue 16 ds
          else if p = CHR ''o'' \<or> p = CHR ''O'' then digitsValue 8 ds
          else if p = CHR ''b'' \<or> p = CHR ''B'' then digitsValue 2 ds
          else None
      | _ \<Rightarrow> None)"

text \<open>The exponent part: absent (exponent 0), or \<open>e\<close>/\<open>E\<close>, an optional sign and digits.\<close>

definition exponentPart :: "string \<Rightarrow> int option" where
  "exponentPart s =
     (case s of
        [] \<Rightarrow> Some 0
      | e # cs \<Rightarrow>
          if e \<noteq> CHR ''e'' \<and> e \<noteq> CHR ''E'' then None
          else (case cs of
                  [] \<Rightarrow> None
                | g # ds \<Rightarrow>
                    if g = CHR ''+'' then map_option int (digitsValue 10 ds)
                    else if g = CHR ''-'' then map_option (\<lambda>n. - int n) (digitsValue 10 ds)
                    else map_option int (digitsValue 10 cs)))"

definition scale10 :: "rat \<Rightarrow> int \<Rightarrow> rat" where
  "scale10 m e = (if 0 \<le> e then m * 10 ^ nat e else m / 10 ^ nat (- e))"

definition strUnsignedDecimalLiteral :: "string \<Rightarrow> rat option" where
  "strUnsignedDecimalLiteral s =
     (let ip = takeWhile isDecimalDigit s;
          r1 = dropWhile isDecimalDigit s;
          dot = (case r1 of [] \<Rightarrow> False | c # _ \<Rightarrow> c = CHR ''.'');
          fp = (if dot then takeWhile isDecimalDigit (tl r1) else []);
          r2 = (if dot then dropWhile isDecimalDigit (tl r1) else r1)
      in if ip = [] \<and> fp = [] then None
         else (case (radixValue 10 0 (ip @ fp), exponentPart r2) of
                 (Some m, Some e) \<Rightarrow> Some (scale10 (of_nat m) (e - int (length fp)))
               | _ \<Rightarrow> None))"

definition strDecimalLiteral :: "string \<Rightarrow> jsnum" where
  "strDecimalLiteral s =
     (case s of
        [] \<Rightarrow> NaN
      | c # cs \<Rightarrow>
          if c = CHR ''+'' then
            (if cs = ''Infinity'' then PosInfinity
             else case strUnsignedDecimalLiteral cs of None \<Rightarrow> NaN | Some v \<Rightarrow> Num v)
          else if c = CHR ''-'' then
            (if cs = ''Infinity'' then NegInfinity
             else case strUnsignedDecimalLiteral cs of None \<Rightarrow> NaN | Some v \<Rightarrow> Num (- v))
          else
            (if s = ''Infinity'' then PosInfinity
             else case strUnsignedDecimalLiteral s of None \<Rightarrow> NaN | Some v \<Rightarrow> Num v))"

definition Number :: "string \<Rightarrow> jsnum" where
  "Number str =
     (let s = trim str
      in if s = [] then Num 0
         else case nonDecimalIntegerLiteral s of
                Some n \<Rightarrow> Num (of_nat n)
              | None \<Rightarrow> strDecimalLiteral s)"

subsection \<open>String and array operations\<close>

text \<open>\<open>s.replace(/[()]/g, "")\<close>: every parenthesis is removed.\<close>

definition replaceParens :: "string \<Rightarrow> string" where
  "replaceParens s = filter (\<lambda>c. c \<noteq> CHR ''('' \<and> c \<noteq> CHR '')'') s"

text \<open>\<open>s.split(sep)\<close> for a one-character separator; the result is never empty.\<close>

fun split :: "char \<Rightarrow> string \<Rightarrow> string list" where
  "split sep [] = [[]]"
| "split sep (c # cs) =
     (if c = sep then [] # split sep cs
      else case split sep cs of
             [] \<Rightarrow> [[c]]
           | x # xs \<Rightarrow> (c # x) # xs)"

text \<open>\<open>coords[i]\<close>: reading past the end of an array gives \<open>undefined\<close>.\<close>

definition element :: "jsnum list \<Rightarrow> nat \<Rightarrow> coordinate" where
  "element coords i = (if i < length coords then Coord (coords ! i) else Undefined)"

section \<open>Parsing a position string\<close>

text \<open>
  \<open>parsePositionString\<close> of ProjectHomeScreen.jsx. The argument is \<open>None\<close> for a
  \<open>null\<close> or absent \<open>location_position\<close>; the empty string is falsy as well.
\<close>

definition parsePositionString :: "string option \<Rightarrow> coordinate \<times> coordinate" where
  "parsePositionString positionString =
     (case positionString of
        None \<Rightarrow> (Null, Null)
      | Some s \<Rightarrow>
          if s = [] then (Null, Null)
          else let coords = map Number (split CHR '','' (replaceParens s))
               in (element coords 0, element coords 1))"

section \<open>Data fetched from the backend\<close>

text \<open>
  The rows of the REST API, with the fields the screen reads. \<open>score_points\<close> and
  \<open>location_content\<close> may be \<open>null\<close>; \<open>loc_id\<close> is the row's \<open>id\<close>.
\<close>

record project =
  title :: string
  participant_scoring :: string

record location_row =
  loc_id :: int
  location_name :: string
  location_position :: "string option"
  score_points :: "int option"
  location_content :: "string option"

text \<open>A location of the screen's state: the row with the parsed coordinates spread over it.\<close>

record location = location_row +
  latitude :: coordinate
  longitude :: coordinate

text \<open>\<open>{ ...loc, ...parsePositionString(loc.location_position) }\<close>\<close>

definition withCoords :: "location_row \<Rightarrow> location" where
  "withCoords loc =
     (let c = parsePositionString (location_position loc)
      in \<lparr>loc_id = loc_id loc, location_name = location_name loc,
          location_position = location_position loc, score_points = score_points loc,
          location_content = location_content loc, latitude = fst c, longitude = snd c\<rparr>)"

text \<open>
  An error thrown by an awaited call. The option is \<open>error.response.status\<close> when the
  error carries a response; the errors api.js throws carry none.
\<close>

datatype error = Error "nat option"

section \<open>Sets of visited identifiers\<close>

text \<open>
  A JavaScript \<open>Set\<close> keeps its members in insertion order, and \<open>Array.from\<close> lists them
  in that order: a set of identifiers is the list of its members, without repetition.
\<close>

definition Set_has :: "int list \<Rightarrow> int \<Rightarrow> bool" where
  "Set_has s x = (x \<in> set s)"

definition Set_add :: "int list \<Rightarrow> int \<Rightarrow> int list" where
  "Set_add s x = (if Set_has s x then s else s @ [x])"

definition new_Set :: "int list \<Rightarrow> int list" where
  "new_Set xs = foldl Set_add [] xs"

section \<open>Scoring\<close>

text \<open>\<open>Number(loc.score_points) || 0\<close> and \<open>loc.score_points || 0\<close>: \<open>null\<close> counts 0.\<close>

definition pointsOf :: "int option \<Rightarrow> int" where
  "pointsOf p = (case p of None \<Rightarrow> 0 | Some n \<Rightarrow> n)"

text \<open>\<open>calculatePoints\<close> of ProjectHomeScreen.jsx, the value of the \<open>points\<close> state.\<close>

definition calculatePoints :: "location list \<Rightarrow> int list \<Rightarrow> int" where
  "calculatePoints locations visitedLocations =
     foldl (\<lambda>sum loc. if Set_has visitedLocations (loc_id loc)
                       then sum + pointsOf (score_points loc) else sum) 0 locations"

definition toLowerCase :: "string \<Rightarrow> string" where
  "toLowerCase s =
     map (\<lambda>c. case map_of (zip ''ABCDEFGHIJKLMNOPQRSTUVWXYZ'' ''abcdefghijklmnopqrstuvwxyz'') c of
                 None \<Rightarrow> c
               | Some l \<Rightarrow> l) s"

text \<open>
  \<open>getTotalPoints\<close> of api.js, on the resolved values of its two requests: the rows
  \<open>getProject\<close> returned and the rows \<open>getLocations\<close> returned.
\<close>

definition getTotalPoints :: "project list \<Rightarrow> location_row list \<Rightarrow> int list \<Rightarrow> error + int" where
  "getTotalPoints project locations visitedArray =
     (case project of
        [] \<Rightarrow> Inl (Error None)
      | p # _ \<Rightarrow>
          let scoringType = toLowerCase (participant_scoring p)
          in if scoringType = ''sequence'' \<or> scoringType = ''number of locations entered''
             then Inr (int (length visitedArray))
             else if scoringType = ''points''
             then Inr (foldl (\<lambda>acc loc. acc + pointsOf (score_points loc)) 0
                        (filter (\<lambda>loc. loc_id loc \<in> set visitedArray) locations))
             else Inr 0)"

section \<open>The project home screen\<close>

text \<open>
  The requests api.js sends: \<open>getProject\<close>, \<open>getLocations\<close> and \<open>getLocation\<close> are GET
  requests, \<open>createTracking\<close> is a POST to \<open>/tracking\<close>.
\<close>

datatype request =
    GetProject string
  | GetLocations string
  | GetLocation int
  | CreateTracking int

fun isWrite :: "request \<Rightarrow> bool" where
  "isWrite (GetProject pid) = False"
| "isWrite (GetLocations pid) = False"
| "isWrite (GetLocation i) = False"
| "isWrite (CreateTracking i) = True"

text \<open>
  The screen's functions are asynchronous. A call runs until its first \<open>await\<close>; what is
  left of it is a task: the \<open>await\<close> it is suspended at, with the local variables the rest
  of the function reads. A task is resumed by the reply to the call it awaits.
\<close>

datatype task =
    FetchData_getProject
  | FetchData_getLocations
  | FetchData_getItem "location_row list"
  | Visit_setItem location "int list"
  | Visit_updateLocationVisit location
  | Visit_createTracking location
  | Reset_removeItem

datatype reply =
    Rejected error
  | Fulfilled
  | Projects "project list"
  | Rows "location_row list"

text \<open>
  The component's state and refs, and what it acts on: AsyncStorage, the requests sent to
  the backend, the alerts shown, and the lines \<open>handleLocationUpdate\<close> logs for each
  distance it computes. An entry of AsyncStorage is the array of identifiers whose JSON
  text the screen stored under the key, so that \<open>JSON.parse\<close> of the text is that array.
\<close>

record screen =
  projectId :: string
  project :: "project option"
  locations :: "location list"
  points :: int
  pointsPossible :: int
  loading :: bool
  currentLocationContent :: "string option"
  visitedLocations :: "int list"
  visitedLocationsRef :: "int list"
  processingRef :: bool
  asyncStorage :: "string \<rightharpoonup> int list"
  requests :: "request list"
  alerts :: "(string \<times> string) list"
  distanceLog :: "(string \<times> jsnum) list"
  pending :: "task list"

text \<open>
  A state setter with the effects that depend on the state it sets: the effect on
  \<open>[visitedLocations]\<close> stores the set in \<open>visitedLocationsRef\<close>, the effect on
  \<open>[visitedLocations, locations]\<close> runs \<open>calculatePoints\<close>. The render and its effects
  are taken to finish before the next event is handled.
\<close>

definition setVisitedLocations :: "int list \<Rightarrow> screen \<Rightarrow> screen" where
  "setVisitedLocations v s =
     s\<lparr>visitedLocations := v, visitedLocationsRef := v, points := calculatePoints (locations s) v\<rparr>"

definition setLocations :: "location list \<Rightarrow> screen \<Rightarrow> screen" where
  "setLocations ls s = s\<lparr>locations := ls, points := calculatePoints ls (visitedLocations s)\<rparr>"

definition alert :: "string \<Rightarrow> string \<Rightarrow> screen \<Rightarrow> screen" where
  "alert heading message s = s\<lparr>alerts := alerts s @ [(heading, message)]\<rparr>"

definition storageKey :: "string \<Rightarrow> string" where
  "storageKey pid = ''visitedLocations_'' @ pid"

subsection \<open>fetchData\<close>

definition fetchData :: "screen \<Rightarrow> screen" where
  "fetchData s =
     s\<lparr>requests := requests s @ [GetProject (projectId s)],
       pending := pending s @ [FetchData_getProject]\<rparr>"

definition fetchData_catch :: "screen \<Rightarrow> screen" where
  "fetchData_catch s =
     (alert ''Error'' ''Unable to load project or location data.'' s)\<lparr>loading := False\<rparr>"

definition fetchData_afterGetProject :: "reply \<Rightarrow> screen \<Rightarrow> screen option" where
  "fetchData_afterGetProject r s =
     (case r of
        Rejected e \<Rightarrow> Some (fetchData_catch s)
      | Projects [] \<Rightarrow>
          Some ((alert ''Error'' ''Project not found.'' s)\<lparr>project := None, loading := False\<rparr>)
      | Projects (p # ps) \<Rightarrow>
          Some (s\<lparr>project := Some p,
                  requests := requests s @ [GetLocations (projectId s)],
                  pending := pending s @ [FetchData_getLocations]\<rparr>)
      | _ \<Rightarrow> None)"

definition fetchData_afterGetLocations :: "reply \<Rightarrow> screen \<Rightarrow> screen option" where
  "fetchData_afterGetLocations r s =
     (case r of
        Rejected e \<Rightarrow> Some (fetchData_catch s)
      | Rows allLocations \<Rightarrow>
          Some ((setLocations (map withCoords allLocations) s)
                  \<lparr>pending := pending s @ [FetchData_getItem allLocations]\<rparr>)
      | _ \<Rightarrow> None)"

definition fetchData_afterGetItem :: "location_row list \<Rightarrow> reply \<Rightarrow> screen \<Rightarrow> screen option" where
  "fetchData_afterGetItem allLocations r s =
     (case r of
        Rejected e \<Rightarrow> Some (fetchData_catch s)
      | _ \<Rightarrow>
          let visitedArray = (case asyncStorage s (storageKey (projectId s)) of
                                None \<Rightarrow> []
                              | Some a \<Rightarrow> a);
              visitedSet = new_Set visitedArray;
              totalPossiblePoints =
                foldl (\<lambda>sum loc. sum + pointsOf (score_points loc)) 0 allLocations
          in Some ((setVisitedLocations visitedSet s)
                     \<lparr>pointsPossible := totalPossiblePoints, loading := False\<rparr>))"

subsection \<open>handleLocationVisit\<close>

text \<open>
  The call runs to \<open>await AsyncStorage.setItem\<close>, or returns at once for a location that
  is in \<open>visitedLocationsRef\<close>: the result is the new state and the task left, if any.
\<close>

definition handleLocationVisit :: "location \<Rightarrow> screen \<Rightarrow> screen \<times> task option" where
  "handleLocationVisit location s =
     (if Set_has (visitedLocationsRef s) (loc_id location) then (s, None)
      else let updatedVisitedSet = Set_add (visitedLocationsRef s) (loc_id location);
               s1 = (setVisitedLocations updatedVisitedSet s)
                      \<lparr>visitedLocationsRef := updatedVisitedSet\<rparr>
           in (s1, Some (Visit_setItem location updatedVisitedSet)))"

definition handleLocationVisit_catch :: "error \<Rightarrow> screen \<Rightarrow> screen" where
  "handleLocationVisit_catch e s =
     (case e of
        Error None \<Rightarrow>
          alert ''Error'' ''Unable to process location access. Please try again later.'' s
      | Error (Some status) \<Rightarrow>
          if status = 400 then alert ''Error'' ''Request Error: Unable to unlock the place.'' s
          else alert ''Error'' ''Unable to process location access. Please try again later.'' s)"

text \<open>
  \<open>handleLocationVisit\<close> is awaited by \<open>handleLocationUpdate\<close> only, whose next statement
  clears the guard: \<open>processingRef.current = false\<close>.
\<close>

definition handleLocationUpdate_afterVisit :: "screen \<Rightarrow> screen" where
  "handleLocationUpdate_afterVisit s = s\<lparr>processingRef := False\<rparr>"

definition handleLocationVisit_afterSetItem ::
  "location \<Rightarrow> int list \<Rightarrow> reply \<Rightarrow> screen \<Rightarrow> screen option" where
  "handleLocationVisit_afterSetItem location updatedVisitedArray r s =
     (case r of
        Rejected e \<Rightarrow> Some (handleLocationUpdate_afterVisit (handleLocationVisit_catch e s))
      | _ \<Rightarrow>
          Some (s\<lparr>asyncStorage := (asyncStorage s)(storageKey (projectId s) \<mapsto> updatedVisitedArray),
                  requests := requests s @ [GetLocation (loc_id location)],
                  pending := pending s @ [Visit_updateLocationVisit location]\<rparr>))"

text \<open>
  \<open>updateLocationVisit\<close> of api.js fetches the location and throws when no row comes
  back; it changes nothing on the backend.
\<close>

definition handleLocationVisit_afterUpdateLocationVisit ::
  "location \<Rightarrow> reply \<Rightarrow> screen \<Rightarrow> screen option" where
  "handleLocationVisit_afterUpdateLocationVisit location r s =
     (case r of
        Rejected e \<Rightarrow> Some (handleLocationUpdate_afterVisit (handleLocationVisit_catch e s))
      | Rows [] \<Rightarrow>
          Some (handleLocationUpdate_afterVisit (handleLocationVisit_catch (Error None) s))
      | Rows (row # rows) \<Rightarrow>
          Some (s\<lparr>requests := requests s @ [CreateTracking (loc_id location)],
                  pending := pending s @ [Visit_createTracking location]\<rparr>)
      | _ \<Rightarrow> None)"

definition handleLocationVisit_afterCreateTracking ::
  "location \<Rightarrow> reply \<Rightarrow> screen \<Rightarrow> screen option" where
  "handleLocationVisit_afterCreateTracking location r s =
     (case r of
        Rejected e \<Rightarrow> Some (handleLocationUpdate_afterVisit (handleLocationVisit_catch e s))
      | _ \<Rightarrow>
          Some (handleLocationUpdate_afterVisit
                  (alert ''Location Unlock'' (''You have unlocked '' @ location_name location @ ''!'')
                     (s\<lparr>currentLocationContent := location_content location\<rparr>))))"

subsection \<open>handleLocationUpdate\<close>

type_synonym getDistance = "jsnum \<times> jsnum \<Rightarrow> coordinate \<times> coordinate \<Rightarrow> jsnum"

definition PROXIMITY_RADIUS :: jsnum where
  "PROXIMITY_RADIUS = Num 50"

text \<open>
  The \<open>for\<close> loop over \<open>locations\<close>. \<open>getDistance\<close> is geolib's function, a parameter here:
  it takes the device's coordinates and the location's.
\<close>

fun forLocations :: "getDistance \<Rightarrow> jsnum \<times> jsnum \<Rightarrow> location list \<Rightarrow> screen \<Rightarrow> screen" where
  "forLocations getDistance coords [] s = s"
| "forLocations getDistance coords (loc # rest) s =
     (if Set_has (visitedLocationsRef s) (loc_id loc) \<or> eq_null (latitude loc) \<or> eq_null (longitude loc)
      then forLocations getDistance coords rest s
      else let distance = getDistance coords (latitude loc, longitude loc);
               s1 = s\<lparr>distanceLog := distanceLog s @ [(location_name loc, distance)]\<rparr>
           in if js_le distance PROXIMITY_RADIUS
              then (case handleLocationVisit loc (s1\<lparr>processingRef := True\<rparr>) of
                      (s2, None) \<Rightarrow> handleLocationUpdate_afterVisit s2
                    | (s2, Some t) \<Rightarrow> s2\<lparr>pending := pending s2 @ [t]\<rparr>)
              else forLocations getDistance coords rest s1)"

definition handleLocationUpdate :: "getDistance \<Rightarrow> jsnum \<times> jsnum \<Rightarrow> screen \<Rightarrow> screen" where
  "handleLocationUpdate getDistance coords s =
     (if processingRef s then s else forLocations getDistance coords (locations s) s)"

subsection \<open>resetVisitedLocations\<close>

definition resetVisitedLocations :: "screen \<Rightarrow> screen" where
  "resetVisitedLocations s = s\<lparr>pending := pending s @ [Reset_removeItem]\<rparr>"

definition resetVisitedLocations_afterRemoveItem :: "reply \<Rightarrow> screen \<Rightarrow> screen option" where
  "resetVisitedLocations_afterRemoveItem r s =
     (case r of
        Rejected e \<Rightarrow> Some (alert ''Error'' ''Unable to reset access history.'' s)
      | _ \<Rightarrow>
          Some (fetchData
                  (alert ''Reset Successfully''
                     ''Your access history has been cleared, you can start over!''
                     ((setVisitedLocations []
                         (s\<lparr>asyncStorage := (asyncStorage s)(storageKey (projectId s) := None)\<rparr>))
                        \<lparr>visitedLocationsRef := []\<rparr>))))"

subsection \<open>Events\<close>

text \<open>
  The screen is mounted with \<open>fetchData\<close> started. Then it handles one event at a time: a
  position from \<open>watchPositionAsync\<close>, a press on the reset button, or the reply that
  resumes the task at some index of \<open>pending\<close>. An event that names no task, or a reply
  of the wrong kind for its task, is no step. The position callback reads the current
  \<open>locations\<close>: the effect that subscribes it runs again whenever \<open>locations\<close> changes.
\<close>

definition mount :: "string \<Rightarrow> (string \<rightharpoonup> int list) \<Rightarrow> screen" where
  "mount pid storage =
     fetchData \<lparr>projectId = pid, project = None, locations = [], points = 0, pointsPossible = 0,
                loading = True, currentLocationContent = None, visitedLocations = [],
                visitedLocationsRef = [], processingRef = False, asyncStorage = storage,
                requests = [], alerts = [], distanceLog = [], pending = []\<rparr>"

definition resume :: "task \<Rightarrow> reply \<Rightarrow> screen \<Rightarrow> screen option" where
  "resume t r s =
     (case t of
        FetchData_getProject \<Rightarrow> fetchData_afterGetProject r s
      | FetchData_getLocations \<Rightarrow> fetchData_afterGetLocations r s
      | FetchData_getItem allLocations \<Rightarrow> fetchData_afterGetItem allLocations r s
      | Visit_setItem location arr \<Rightarrow> handleLocationVisit_afterSetItem location arr r s
      | Visit_updateLocationVisit location \<Rightarrow> handleLocationVisit_afterUpdateLocationVisit location r s
      | Visit_createTracking location \<Rightarrow> handleLocationVisit_afterCreateTracking location r s
      | Reset_removeItem \<Rightarrow> resetVisitedLocations_afterRemoveItem r s)"

datatype event =
    PositionUpdate "jsnum \<times> jsnum"
  | PressReset
  | Settled nat reply

definition step :: "getDistance \<Rightarrow> event \<Rightarrow> screen \<Rightarrow> screen option" where
  "step getDistance ev s =
     (case ev of
        PositionUpdate coords \<Rightarrow> Some (handleLocationUpdate getDistance coords s)
      | PressReset \<Rightarrow> Some (resetVisitedLocations s)
      | Settled i r \<Rightarrow>
          if i < length (pending s)
          then resume (pending s ! i) r (s\<lparr>pending := take i (pending s) @ drop (Suc i) (pending s)\<rparr>)
          else None)"

fun run :: "getDistance \<Rightarrow> event list \<Rightarrow> screen \<Rightarrow> screen option" where
  "run getDistance [] s = Some s"
| "run getDistance (ev # evs) s =
     (case step getDistance ev s of
        None \<Rightarrow> None
      | Some s' \<Rightarrow> run getDistance evs s')"

section \<open>The claims' vocabulary\<close>

text \<open>
  A location is eligible at a position, as the loop of \<open>handleLocationUpdate\<close> tests it,
  when it is not yet visited, neither of its coordinates is \<open>== null\<close>, and its distance is
  within the proximity radius. The test of the coordinates is the loop's: coordinates that
  \<open>parsePositionString\<close> made of a malformed position pass it.
\<close>

definition eligible :: "getDistance \<Rightarrow> jsnum \<times> jsnum \<Rightarrow> int list \<Rightarrow> location \<Rightarrow> bool" where
  "eligible getDistance coords visited loc =
     (\<not> Set_has visited (loc_id loc) \<and> \<not> eq_null (latitude loc) \<and> \<not> eq_null (longitude loc) \<and>
      js_le (getDistance coords (latitude loc, longitude loc)) PROXIMITY_RADIUS)"

text \<open>
  The state \<open>handleLocationUpdate\<close> leaves when it starts to unlock a location: the
  identifier is in the visited set, the guard is set, and \<open>handleLocationVisit\<close> is
  suspended at the write to AsyncStorage.
\<close>

definition unlockStarted :: "location \<Rightarrow> screen \<Rightarrow> screen" where
  "unlockStarted loc s =
     (let u = visitedLocationsRef s @ [loc_id loc]
      in s\<lparr>visitedLocations := u, visitedLocationsRef := u,
           points := calculatePoints (locations s) u, processingRef := True,
           pending := pending s @ [Visit_setItem loc u]\<rparr>)"

text \<open>
  ScoreTotal in the claims' words: under Points the sum of the point values of the
  locations whose identifier is visited, under Sequence the number of visited identifiers.
\<close>

definition ScoreTotal_Points :: "'a location_row_scheme list \<Rightarrow> int set \<Rightarrow> int" where
  "ScoreTotal_Points locs V =
     sum_list (map (\<lambda>loc. pointsOf (score_points loc)) (filter (\<lambda>loc. loc_id loc \<in> V) locs))"

definition ScoreTotal_Sequence :: "int set \<Rightarrow> int" where
  "ScoreTotal_Sequence V = int (card V)"

text \<open>
  The tasks of \<open>handleLocationVisit\<close>: an unlock is in flight while one of them is pending.
  The guard invariant says that the guard is set exactly while one is pending, and that
  there is never more than one.
\<close>

fun isVisitTask :: "task \<Rightarrow> bool" where
  "isVisitTask (Visit_setItem location arr) = True"
| "isVisitTask (Visit_updateLocationVisit location) = True"
| "isVisitTask (Visit_createTracking location) = True"
| "isVisitTask t = False"

definition guarded :: "screen \<Rightarrow> bool" where
  "guarded s = (length (filter isVisitTask (pending s)) = (if processingRef s then 1 else 0))"

text \<open>
  The ways a remote call of an unlock fails, as the events that follow the write to
  AsyncStorage: \<open>updateLocationVisit\<close> is rejected or finds no row, or it succeeds and
  \<open>createTracking\<close> is rejected.
\<close>

definition remoteFailure :: "nat \<Rightarrow> event list \<Rightarrow> bool" where
  "remoteFailure n evs =
     ((\<exists>e. evs = [Settled n (Rejected e)]) \<or> evs = [Settled n (Rows [])] \<or>
      (\<exists>row rows e. evs = [Settled n (Rows (row # rows)), Settled n (Rejected e)]))"

text \<open>
  The ways \<open>handleLocationVisit\<close> ends once it is suspended at the write to AsyncStorage,
  as the replies to its awaits: the write is rejected; the write succeeds and a remote call
  fails; or the write and both remote calls succeed.
\<close>

definition visitEnds :: "nat \<Rightarrow> event list \<Rightarrow> bool" where
  "visitEnds n evs =
     ((\<exists>e. evs = [Settled n (Rejected e)]) \<or>
      (\<exists>failure. remoteFailure n failure \<and> evs = Settled n Fulfilled # failure) \<or>
      (\<exists>row rows. evs = [Settled n Fulfilled, Settled n (Rows (row # rows)), Settled n Fulfilled]))"

text \<open>
  The tasks of \<open>fetchData\<close>, and the requests of a state that write to the backend (every
  request but a GET).
\<close>

fun isFetchTask :: "task \<Rightarrow> bool" where
  "isFetchTask FetchData_getProject = True"
| "isFetchTask FetchData_getLocations = True"
| "isFetchTask (FetchData_getItem allLocations) = True"
| "isFetchTask t = False"

definition writes :: "screen \<Rightarrow> request list" where
  "writes s = filter isWrite (requests s)"

text \<open>
  A session in which the backend serves one list of locations: every reply to the
  \<open>getLocations\<close> request of \<open>fetchData\<close> carries the rows of \<open>directory\<close>.
\<close>

definition serves :: "location_row list \<Rightarrow> screen \<Rightarrow> event \<Rightarrow> bool" where
  "serves directory s ev =
     (case ev of
        Settled i r \<Rightarrow>
          (case r of
             Rows rows \<Rightarrow>
               (if i < length (pending s) \<and> pending s ! i = FetchData_getLocations
                then rows = directory else True)
           | _ \<Rightarrow> True)
      | _ \<Rightarrow> True)"

fun served :: "getDistance \<Rightarrow> location_row list \<Rightarrow> event list \<Rightarrow> screen \<Rightarrow> bool" where
  "served gd directory [] s = True"
| "served gd directory (ev # evs) s =
     (serves directory s ev \<and>
      (case step gd ev s of None \<Rightarrow> True | Some s' \<Rightarrow> served gd directory evs s'))"

text \<open>
  The containment invariant. The identifiers of a list of locations; what a pending task
  holds of them; and the state: the locations are not yet loaded or are the directory's,
  the visited identifiers are identifiers of the locations, and AsyncStorage and the
  pending tasks hold identifiers of the directory only.
\<close>

definition ids :: "'a location_row_scheme list \<Rightarrow> int set" where
  "ids locs = loc_id ` set locs"

fun taskContained :: "location_row list \<Rightarrow> screen \<Rightarrow> task \<Rightarrow> bool" where
  "taskContained directory s (FetchData_getItem allLocations) =
     (allLocations = directory \<and> locations s = map withCoords directory)"
| "taskContained directory s (Visit_setItem location arr) = (set arr \<subseteq> ids directory)"
| "taskContained directory s t = True"

definition contained :: "location_row list \<Rightarrow> string \<Rightarrow> screen \<Rightarrow> bool" where
  "contained directory pid s =
     (projectId s = pid \<and>
      (locations s = [] \<or> locations s = map withCoords directory) \<and>
      set (visitedLocations s) \<subseteq> ids (locations s) \<and>
      set (visitedLocationsRef s) \<subseteq> ids (locations s) \<and>
      (case asyncStorage s (storageKey pid) of None \<Rightarrow> True | Some a \<Rightarrow> set a \<subseteq> ids directory) \<and>
      list_all (taskContained directory s) (pending s))"

section \<open>Example data\<close>

text \<open>
  A project with two locations fifteen metres apart, and three device positions: at the
  first location, 49 metres north of it and 51 metres north of it. geolib's answers are
  tabulated by the pair of the device's coordinates and the target's; a pair that is not
  in the table has the answer NaN.
\<close>

definition tableDistance ::
  "(((jsnum \<times> jsnum) \<times> (coordinate \<times> coordinate)) \<times> jsnum) list \<Rightarrow> getDistance" where
  "tableDistance table coords target =
     (case map_of table (coords, target) of None \<Rightarrow> NaN | Some d \<Rightarrow> d)"

definition exampleProject :: project where
  "exampleProject = \<lparr>title = ''Campus tour'', participant_scoring = ''Sequence''\<rparr>"

definition pointsProject :: project where
  "pointsProject = \<lparr>title = ''Campus tour'', participant_scoring = ''Points''\<rparr>"

definition rowA :: location_row where
  "rowA = \<lparr>loc_id = 1, location_name = ''Great Court'',
            location_position = Some ''(-27.4975, 153.0137)'', score_points = Some 10,
            location_content = Some ''<p>Welcome to the Great Court</p>''\<rparr>"

definition rowB :: location_row where
  "rowB = \<lparr>loc_id = 2, location_name = ''Library'',
            location_position = Some ''(-27.4976, 153.0138)'', score_points = Some 5,
            location_content = None\<rparr>"

definition locA :: location where
  "locA = \<lparr>loc_id = 1, location_name = ''Great Court'',
            location_position = Some ''(-27.4975, 153.0137)'', score_points = Some 10,
            location_content = Some ''<p>Welcome to the Great Court</p>'',
            latitude = Coord (Num (- 274975 / 10000)), longitude = Coord (Num (1530137 / 10000))\<rparr>"

definition locB :: location where
  "locB = \<lparr>loc_id = 2, location_name = ''Library'',
            location_position = Some ''(-27.4976, 153.0138)'', score_points = Some 5,
            location_content = None,
            latitude = Coord (Num (- 274976 / 10000)), longitude = Coord (Num (1530138 / 10000))\<rparr>"

definition atA :: "jsnum \<times> jsnum" where
  "atA = (Num (- 274975 / 10000), Num (1530137 / 10000))"

definition north49 :: "jsnum \<times> jsnum" where
  "north49 = (Num (- 2749706 / 100000), Num (1530137 / 10000))"

definition north51 :: "jsnum \<times> jsnum" where
  "north51 = (Num (- 2749704 / 100000), Num (1530137 / 10000))"

definition surveyed :: getDistance where
  "surveyed = tableDistance
     [((atA, (latitude locA, longitude locA)), Num 0),
      ((atA, (latitude locB, longitude locB)), Num 15),
      ((north49, (latitude locA, longitude locA)), Num 49),
      ((north49, (latitude locB, longitude locB)), Num 62),
      ((north51, (latitude locA, longitude locA)), Num 51),
      ((north51, (latitude locB, longitude locB)), Num 64)]"

text \<open>The screen once \<open>fetchData\<close> has finished, with the given identifiers stored as visited.\<close>

definition loaded :: "int list \<Rightarrow> screen" where
  "loaded visited =
     \<lparr>projectId = ''7'', project = Some exampleProject, locations = [locA, locB],
      points = calculatePoints [locA, locB] visited, pointsPossible = 15, loading = False,
      currentLocationContent = None, visitedLocations = visited, visitedLocationsRef = visited,
      processingRef = False,
      asyncStorage = (if visited = [] then Map.empty else [storageKey ''7'' \<mapsto> visited]),
      requests = [GetProject ''7'', GetLocations ''7''], alerts = [], distanceLog = [],
      pending = []\<rparr>"

text \<open>
  The example run continued: the device reports its position at the first location
  (\<open>hitA\<close>); the write to AsyncStorage is done and \<open>updateLocationVisit\<close> is awaited
  (\<open>storedA\<close>); then \<open>updateLocationVisit\<close> fails (\<open>failedA\<close>), or both remote calls
  succeed (\<open>unlockedA\<close>) and the user resets the screen (\<open>resetA\<close>).
\<close>

definition hitA :: screen where
  "hitA = (loaded [])
     \<lparr>points := 10, visitedLocations := [1], visitedLocationsRef := [1], processingRef := True,
      distanceLog := [(''Great Court'', Num 0)], pending := [Visit_setItem locA [1]]\<rparr>"

definition storedA :: screen where
  "storedA = hitA
     \<lparr>asyncStorage := [storageKey ''7'' \<mapsto> [1]],
      requests := [GetProject ''7'', GetLocations ''7'', GetLocation 1],
      pending := [Visit_updateLocationVisit locA]\<rparr>"

definition failedA :: screen where
  "failedA = storedA
     \<lparr>processingRef := False,
      alerts := [(''Error'', ''Unable to process location access. Please try again later.'')],
      pending := []\<rparr>"

definition unlockedA :: screen where
  "unlockedA = storedA
     \<lparr>currentLocationContent := Some ''<p>Welcome to the Great Court</p>'',
      processingRef := False,
      requests := [GetProject ''7'', GetLocations ''7'', GetLocation 1, CreateTracking 1],
      alerts := [(''Location Unlock'', ''You have unlocked Great Court!'')],
      pending := []\<rparr>"

definition resetA :: screen where
  "resetA = unlockedA
     \<lparr>points := 0, visitedLocations := [], visitedLocationsRef := [],
      asyncStorage := Map.empty,
      requests := [GetProject ''7'', GetLocations ''7'', GetLocation 1, CreateTracking 1,
                   GetProject ''7''],
      alerts := [(''Location Unlock'', ''You have unlocked Great Court!''),
                 (''Reset Successfully'', ''Your access history has been cleared, you can start over!'')],
      pending := [FetchData_getProject]\<rparr>"

text \<open>
  Two rows whose position is not of the form \<open>(lat, lon)\<close>, and a device at latitude 0,
  longitude 0, where geolib's distance to the point itself is 0.
\<close>

definition rowN :: location_row where
  "rowN = \<lparr>loc_id = 3, location_name = ''Unreadable'', location_position = Some ''(abc, def)'',
            score_points = Some 20, location_content = None\<rparr>"

definition rowM :: location_row where
  "rowM = \<lparr>loc_id = 4, location_name = ''Unplaced'', location_position = Some ''(,)'',
            score_points = Some 20, location_content = None\<rparr>"

text \<open>A row with a well-formed position at latitude 0, longitude 0.\<close>

definition rowZ :: location_row where
  "rowZ = \<lparr>loc_id = 5, location_name = ''Null Island'', location_position = Some ''(0, 0)'',
            score_points = Some 5, location_content = None\<rparr>"

definition equator :: "jsnum \<times> jsnum" where
  "equator = (Num 0, Num 0)"

definition originSurvey :: getDistance where
  "originSurvey = tableDistance [((equator, (Coord (Num 0), Coord (Num 0))), Num 0)]"

section \<open>The proximity loop finds the first eligible location\<close>

lemma forLocations_find:
  "\<exists>log. forLocations gd coords locs s =
     (case find (eligible gd coords (visitedLocationsRef s)) locs of
        None \<Rightarrow> s\<lparr>distanceLog := log\<rparr>
      | Some loc \<Rightarrow> unlockStarted loc (s\<lparr>distanceLog := log\<rparr>))"
proof (induction locs arbitrary: s)
  case Nil
  have "s = s\<lparr>distanceLog := distanceLog s\<rparr>" by simp
  then show ?case by (metis find.simps(1) forLocations.simps(1) option.simps(4))
next
  case (Cons loc rest)
  show ?case
  proof (cases "Set_has (visitedLocationsRef s) (loc_id loc) \<or> eq_null (latitude loc) \<or> eq_null (longitude loc)")
    case True
    then have "\<not> eligible gd coords (visitedLocationsRef s) loc"
      by (auto simp: eligible_def)
    with True Cons.IH [of s] show ?thesis by simp
  next
    case skip: False
    let ?d = "gd coords (latitude loc, longitude loc)"
    let ?s1 = "s\<lparr>distanceLog := distanceLog s @ [(location_name loc, ?d)]\<rparr>"
    show ?thesis
    proof (cases "js_le ?d PROXIMITY_RADIUS")
      case True
      with skip have el: "eligible gd coords (visitedLocationsRef s) loc"
        by (simp add: eligible_def)
      from skip True have "forLocations gd coords (loc # rest) s = unlockStarted loc ?s1"
        by (simp add: handleLocationVisit_def Set_add_def setVisitedLocations_def
            unlockStarted_def Let_def)
      with el show ?thesis by auto
    next
      case False
      with skip have nel: "\<not> eligible gd coords (visitedLocationsRef s) loc"
        by (simp add: eligible_def)
      from skip False have eq: "forLocations gd coords (loc # rest) s = forLocations gd coords rest ?s1"
        by (simp add: Let_def)
      from Cons.IH [of ?s1] obtain log where
        "forLocations gd coords rest ?s1 =
           (case find (eligible gd coords (visitedLocationsRef s)) rest of
              None \<Rightarrow> ?s1\<lparr>distanceLog := log\<rparr>
            | Some l \<Rightarrow> unlockStarted l (?s1\<lparr>distanceLog := log\<rparr>))"
        by auto
      then have "forLocations gd coords (loc # rest) s =
           (case find (eligible gd coords (visitedLocationsRef s)) rest of
              None \<Rightarrow> s\<lparr>distanceLog := log\<rparr>
            | Some l \<Rightarrow> unlockStarted l (s\<lparr>distanceLog := log\<rparr>))"
        using eq by (simp del: forLocations.simps split: option.splits)
      moreover have "find (eligible gd coords (visitedLocationsRef s)) (loc # rest) =
          find (eligible gd coords (visitedLocationsRef s)) rest"
        using nel by simp
      ultimately show ?thesis by (intro exI [of _ log]) (simp del: forLocations.simps)
    qed
  qed
qed

lemma unlockStarted_fields [simp]:
  "visitedLocations (unlockStarted loc s) = visitedLocationsRef s @ [loc_id loc]"
  "visitedLocationsRef (unlockStarted loc s) = visitedLocationsRef s @ [loc_id loc]"
  "points (unlockStarted loc s) = calculatePoints (locations s) (visitedLocationsRef s @ [loc_id loc])"
  "processingRef (unlockStarted loc s) = True"
  "pending (unlockStarted loc s) = pending s @ [Visit_setItem loc (visitedLocationsRef s @ [loc_id loc])]"
  "locations (unlockStarted loc s) = locations s"
  "asyncStorage (unlockStarted loc s) = asyncStorage s"
  "requests (unlockStarted loc s) = requests s"
  "alerts (unlockStarted loc s) = alerts s"
  "projectId (unlockStarted loc s) = projectId s"
  "project (unlockStarted loc s) = project s"
  "currentLocationContent (unlockStarted loc s) = currentLocationContent s"
  "distanceLog (unlockStarted loc s) = distanceLog s"
  by (simp_all add: unlockStarted_def Let_def)

lemma handleLocationUpdate_find:
  "\<exists>log. handleLocationUpdate gd coords s =
     (if processingRef s then s
      else case find (eligible gd coords (visitedLocationsRef s)) (locations s) of
             None \<Rightarrow> s\<lparr>distanceLog := log\<rparr>
           | Some loc \<Rightarrow> unlockStarted loc (s\<lparr>distanceLog := log\<rparr>))"
  using forLocations_find [of gd coords "locations s" s]
  by (auto simp: handleLocationUpdate_def)

lemma find_eligible_unvisited:
  "find (eligible gd coords visited) locs = Some loc \<Longrightarrow>
     loc \<in> set locs \<and> eligible gd coords visited loc"
  by (auto simp: find_Some_iff)

lemma find_only:
  "loc \<in> set xs \<Longrightarrow> \<forall>l\<in>set xs. l \<noteq> loc \<longrightarrow> \<not> P l \<Longrightarrow>
     find P xs = (if P loc then Some loc else None)"
  by (induction xs) (auto simp: find_None_iff)


lemma find_holds: "find P xs = Some x \<Longrightarrow> P x \<and> x \<in> set xs"
  by (auto simp: find_Some_iff)

lemma eligible_snoc:
  "eligible gd coords (visited @ [i]) l = (eligible gd coords visited l \<and> loc_id l \<noteq> i)"
  by (auto simp: eligible_def Set_has_def)

lemma find_eligible_snoc:
  "find (eligible gd coords (visited @ [i])) locs =
     find (\<lambda>l. eligible gd coords visited l \<and> loc_id l \<noteq> i) locs"
  by (induction locs) (simp_all add: eligible_snoc)


lemma update_while_guarded: "processingRef s \<Longrightarrow> handleLocationUpdate gd coords s = s"
  by (simp add: handleLocationUpdate_def)




section \<open>Facts about the example data\<close>

lemmas number_defs = Number_def trim_def isStrWhiteSpaceChar_def nonDecimalIntegerLiteral_def
  strDecimalLiteral_def strUnsignedDecimalLiteral_def isDecimalDigit_def exponentPart_def
  digitsValue_def digitOf_def scale10_def

lemma withCoords_rowA: "withCoords rowA = locA"
  by (simp add: withCoords_def rowA_def locA_def parsePositionString_def replaceParens_def
      element_def number_defs)

lemma withCoords_rowB: "withCoords rowB = locB"
  by (simp add: withCoords_def rowB_def locB_def parsePositionString_def replaceParens_def
      element_def number_defs)

lemmas step_defs = step_def resume_def fetchData_def fetchData_afterGetProject_def
  fetchData_afterGetLocations_def fetchData_afterGetItem_def setLocations_def
  setVisitedLocations_def alert_def handleLocationVisit_afterSetItem_def
  handleLocationVisit_afterUpdateLocationVisit_def handleLocationVisit_afterCreateTracking_def
  handleLocationUpdate_afterVisit_def handleLocationVisit_catch_def
  resetVisitedLocations_def resetVisitedLocations_afterRemoveItem_def

lemma score_points_rows: "score_points rowA = Some 10" "score_points rowB = Some 5"
  by (simp_all add: rowA_def rowB_def)

lemma loaded_reachable:
  "run gd [Settled 0 (Projects [exampleProject]), Settled 0 (Rows [rowA, rowB]), Settled 0 Fulfilled]
     (mount ''7'' Map.empty) = Some (loaded [])"
  by (simp add: mount_def step_defs withCoords_rowA withCoords_rowB loaded_def new_Set_def
      pointsOf_def score_points_rows)

lemma eligible_A: "eligible surveyed atA [] locA"
  by (simp add: eligible_def surveyed_def tableDistance_def atA_def north49_def north51_def locA_def Set_has_def PROXIMITY_RADIUS_def)

lemma eligible_B: "eligible surveyed atA [] locB"
  by (simp add: eligible_def surveyed_def tableDistance_def atA_def north49_def north51_def locA_def locB_def Set_has_def PROXIMITY_RADIUS_def)

lemma loc_fields [simp]:
  "loc_id locA = 1" "loc_id locB = 2"
  "latitude locA = Coord (Num (- 274975 / 10000))" "longitude locA = Coord (Num (1530137 / 10000))"
  "latitude locB = Coord (Num (- 274976 / 10000))" "longitude locB = Coord (Num (1530138 / 10000))"
  by (simp_all add: locA_def locB_def)

lemma loaded_fields [simp]:
  "processingRef (loaded v) = False" "locations (loaded v) = [locA, locB]"
  "visitedLocationsRef (loaded v) = v" "visitedLocations (loaded v) = v"
  "pending (loaded v) = []" "requests (loaded v) = [GetProject ''7'', GetLocations ''7'']"
  "projectId (loaded v) = ''7''" "alerts (loaded v) = []"
  "currentLocationContent (loaded v) = None" "project (loaded v) = Some exampleProject"
  "points (loaded v) = calculatePoints [locA, locB] v"
  by (simp_all add: loaded_def)

lemma locA_neq_locB: "locB \<noteq> locA"
  by (simp add: locA_def locB_def)

lemma surveyed_values:
  "surveyed atA (latitude locA, longitude locA) = Num 0"
  "surveyed atA (latitude locB, longitude locB) = Num 15"
  "surveyed north49 (latitude locA, longitude locA) = Num 49"
  "surveyed north49 (latitude locB, longitude locB) = Num 62"
  "surveyed north51 (latitude locA, longitude locA) = Num 51"
  "surveyed north51 (latitude locB, longitude locB) = Num 64"
  by (simp_all add: surveyed_def tableDistance_def atA_def north49_def north51_def)


section \<open>Steps and invariants of a run\<close>

lemma run_invariant:
  assumes "I s"
    and "\<And>s ev s'. I s \<Longrightarrow> step gd ev s = Some s' \<Longrightarrow> I s'"
    and "run gd evs s = Some s'"
  shows "I s'"
  using assms(1,3)
proof (induction evs arbitrary: s)
  case Nil
  then show ?case by simp
next
  case (Cons ev evs)
  then obtain s1 where s1: "step gd ev s = Some s1" "run gd evs s1 = Some s'"
    by (auto split: option.splits)
  from assms(2) [OF Cons.prems(1) s1(1)] have "I s1" .
  with Cons.IH s1(2) show ?case by blast
qed

lemma step_cases:
  assumes "step gd ev s = Some s'"
  obtains (position) coords where "ev = PositionUpdate coords" "s' = handleLocationUpdate gd coords s"
  | (reset) "ev = PressReset" "s' = resetVisitedLocations s"
  | (settled) i r where "ev = Settled i r" "i < length (pending s)"
      "resume (pending s ! i) r (s\<lparr>pending := take i (pending s) @ drop (Suc i) (pending s)\<rparr>) = Some s'"
proof (cases ev)
  case (PositionUpdate coords)
  with assms have "s' = handleLocationUpdate gd coords s"
    by (simp add: step_def)
  with PositionUpdate position show ?thesis by blast
next
  case PressReset
  with assms have "s' = resetVisitedLocations s"
    by (simp add: step_def)
  with PressReset reset show ?thesis by blast
next
  case (Settled i r)
  with assms have "i < length (pending s)"
    "resume (pending s ! i) r (s\<lparr>pending := take i (pending s) @ drop (Suc i) (pending s)\<rparr>) = Some s'"
    by (simp_all add: step_def split: if_splits)
  with Settled settled show ?thesis by blast
qed

lemma handleLocationUpdate_cases:
  obtains (dropped) "processingRef s" "handleLocationUpdate gd coords s = s"
  | (none) log where "\<not> processingRef s" "handleLocationUpdate gd coords s = s\<lparr>distanceLog := log\<rparr>"
  | (hit) log loc where "\<not> processingRef s" "loc \<in> set (locations s)"
      "eligible gd coords (visitedLocationsRef s) loc"
      "handleLocationUpdate gd coords s = unlockStarted loc (s\<lparr>distanceLog := log\<rparr>)"
proof (cases "processingRef s")
  case True
  then have "handleLocationUpdate gd coords s = s"
    by (simp add: handleLocationUpdate_def)
  with True dropped show ?thesis by blast
next
  case idle: False
  then have upd: "handleLocationUpdate gd coords s = forLocations gd coords (locations s) s"
    by (simp add: handleLocationUpdate_def)
  obtain log where loop: "forLocations gd coords (locations s) s =
     (case find (eligible gd coords (visitedLocationsRef s)) (locations s) of
        None \<Rightarrow> s\<lparr>distanceLog := log\<rparr>
      | Some loc \<Rightarrow> unlockStarted loc (s\<lparr>distanceLog := log\<rparr>))"
    using forLocations_find by blast
  show ?thesis
  proof (cases "find (eligible gd coords (visitedLocationsRef s)) (locations s)")
    case None
    have "handleLocationUpdate gd coords s = s\<lparr>distanceLog := log\<rparr>"
      unfolding upd loop None by simp
    with idle none show ?thesis by blast
  next
    case (Some loc)
    have "handleLocationUpdate gd coords s = unlockStarted loc (s\<lparr>distanceLog := log\<rparr>)"
      unfolding upd loop Some by simp
    moreover from find_eligible_unvisited [OF Some]
    have "loc \<in> set (locations s)" "eligible gd coords (visitedLocationsRef s) loc"
      by simp_all
    ultimately show ?thesis using idle hit by blast
  qed
qed

lemma resume_cases:
  assumes "resume t r s = Some s'"
  obtains
    (fetch_failed) "\<not> isVisitTask t" "t \<noteq> Reset_removeItem" "s' = fetchData_catch s"
  | (project_missing) "t = FetchData_getProject"
      "s' = (alert ''Error'' ''Project not found.'' s)\<lparr>project := None, loading := False\<rparr>"
  | (project_found) p where "t = FetchData_getProject"
      "s' = s\<lparr>project := Some p, requests := requests s @ [GetLocations (projectId s)],
               pending := pending s @ [FetchData_getLocations]\<rparr>"
  | (locations_found) allLocations where "t = FetchData_getLocations" "r = Rows allLocations"
      "s' = (setLocations (map withCoords allLocations) s)
               \<lparr>pending := pending s @ [FetchData_getItem allLocations]\<rparr>"
  | (visited_loaded) allLocations where "t = FetchData_getItem allLocations"
      "s' = (setVisitedLocations
               (new_Set (case asyncStorage s (storageKey (projectId s)) of None \<Rightarrow> [] | Some a \<Rightarrow> a)) s)
               \<lparr>pointsPossible := foldl (\<lambda>sum loc. sum + pointsOf (score_points loc)) 0 allLocations,
                 loading := False\<rparr>"
  | (visit_failed) e where "isVisitTask t"
      "s' = handleLocationUpdate_afterVisit (handleLocationVisit_catch e s)"
  | (stored) location arr where "t = Visit_setItem location arr"
      "s' = s\<lparr>asyncStorage := (asyncStorage s)(storageKey (projectId s) \<mapsto> arr),
               requests := requests s @ [GetLocation (loc_id location)],
               pending := pending s @ [Visit_updateLocationVisit location]\<rparr>"
  | (visit_recorded) location where "t = Visit_updateLocationVisit location"
      "s' = s\<lparr>requests := requests s @ [CreateTracking (loc_id location)],
               pending := pending s @ [Visit_createTracking location]\<rparr>"
  | (tracked) location where "t = Visit_createTracking location"
      "s' = handleLocationUpdate_afterVisit
              (alert ''Location Unlock'' (''You have unlocked '' @ location_name location @ ''!'')
                 (s\<lparr>currentLocationContent := location_content location\<rparr>))"
  | (reset_failed) "t = Reset_removeItem" "s' = alert ''Error'' ''Unable to reset access history.'' s"
  | (reset_done) "t = Reset_removeItem"
      "s' = fetchData
              (alert ''Reset Successfully''
                 ''Your access history has been cleared, you can start over!''
                 ((setVisitedLocations []
                     (s\<lparr>asyncStorage := (asyncStorage s)(storageKey (projectId s) := None)\<rparr>))
                    \<lparr>visitedLocationsRef := []\<rparr>))"
proof (cases t)
  case FetchData_getProject
  then have ff: "s' = fetchData_catch s \<Longrightarrow> thesis"
    using fetch_failed by simp
  from FetchData_getProject assms have "fetchData_afterGetProject r s = Some s'"
    by (simp add: resume_def)
  then have "s' = fetchData_catch s \<or>
      s' = (alert ''Error'' ''Project not found.'' s)\<lparr>project := None, loading := False\<rparr> \<or>
      (\<exists>p. s' = s\<lparr>project := Some p, requests := requests s @ [GetLocations (projectId s)],
               pending := pending s @ [FetchData_getLocations]\<rparr>)"
    unfolding fetchData_afterGetProject_def
    by (simp split: reply.splits list.splits; blast)
  with FetchData_getProject ff project_missing project_found show ?thesis
    by blast
next
  case FetchData_getLocations
  then have ff: "s' = fetchData_catch s \<Longrightarrow> thesis"
    using fetch_failed by simp
  from FetchData_getLocations assms have "fetchData_afterGetLocations r s = Some s'"
    by (simp add: resume_def)
  then have "s' = fetchData_catch s \<or>
      (\<exists>allLocations. r = Rows allLocations \<and>
         s' = (setLocations (map withCoords allLocations) s)
               \<lparr>pending := pending s @ [FetchData_getItem allLocations]\<rparr>)"
    unfolding fetchData_afterGetLocations_def
    by (simp split: reply.splits; blast)
  with FetchData_getLocations ff locations_found show ?thesis
    by blast
next
  case (FetchData_getItem allLocations)
  then have ff: "s' = fetchData_catch s \<Longrightarrow> thesis"
    using fetch_failed by simp
  from FetchData_getItem assms have "fetchData_afterGetItem allLocations r s = Some s'"
    by (simp add: resume_def)
  then have "s' = fetchData_catch s \<or>
      s' = (setVisitedLocations
               (new_Set (case asyncStorage s (storageKey (projectId s)) of None \<Rightarrow> [] | Some a \<Rightarrow> a)) s)
               \<lparr>pointsPossible := foldl (\<lambda>sum loc. sum + pointsOf (score_points loc)) 0 allLocations,
                 loading := False\<rparr>"
    unfolding fetchData_afterGetItem_def Let_def
    by (simp split: reply.splits; blast)
  with FetchData_getItem ff visited_loaded show ?thesis
    by blast
next
  case (Visit_setItem location arr)
  with assms have "handleLocationVisit_afterSetItem location arr r s = Some s'"
    by (simp add: resume_def)
  then have "(\<exists>e. s' = handleLocationUpdate_afterVisit (handleLocationVisit_catch e s)) \<or>
      s' = s\<lparr>asyncStorage := (asyncStorage s)(storageKey (projectId s) \<mapsto> arr),
               requests := requests s @ [GetLocation (loc_id location)],
               pending := pending s @ [Visit_updateLocationVisit location]\<rparr>"
    unfolding handleLocationVisit_afterSetItem_def
    by (simp split: reply.splits; blast)
  with Visit_setItem visit_failed [of _] stored show ?thesis
    by (metis isVisitTask.simps(1))
next
  case (Visit_updateLocationVisit location)
  with assms have "handleLocationVisit_afterUpdateLocationVisit location r s = Some s'"
    by (simp add: resume_def)
  then have "(\<exists>e. s' = handleLocationUpdate_afterVisit (handleLocationVisit_catch e s)) \<or>
      s' = s\<lparr>requests := requests s @ [CreateTracking (loc_id location)],
               pending := pending s @ [Visit_createTracking location]\<rparr>"
    unfolding handleLocationVisit_afterUpdateLocationVisit_def
    by (simp split: reply.splits list.splits; blast)
  with Visit_updateLocationVisit visit_failed [of _] visit_recorded show ?thesis
    by (metis isVisitTask.simps(2))
next
  case (Visit_createTracking location)
  with assms have "handleLocationVisit_afterCreateTracking location r s = Some s'"
    by (simp add: resume_def)
  then have "(\<exists>e. s' = handleLocationUpdate_afterVisit (handleLocationVisit_catch e s)) \<or>
      s' = handleLocationUpdate_afterVisit
              (alert ''Location Unlock'' (''You have unlocked '' @ location_name location @ ''!'')
                 (s\<lparr>currentLocationContent := location_content location\<rparr>))"
    unfolding handleLocationVisit_afterCreateTracking_def
    by (simp split: reply.splits; blast)
  with Visit_createTracking visit_failed [of _] tracked show ?thesis
    by (metis isVisitTask.simps(3))
next
  case Reset_removeItem
  with assms have "resetVisitedLocations_afterRemoveItem r s = Some s'"
    by (simp add: resume_def)
  then have "s' = alert ''Error'' ''Unable to reset access history.'' s \<or>
      s' = fetchData
              (alert ''Reset Successfully''
                 ''Your access history has been cleared, you can start over!''
                 ((setVisitedLocations []
                     (s\<lparr>asyncStorage := (asyncStorage s)(storageKey (projectId s) := None)\<rparr>))
                    \<lparr>visitedLocationsRef := []\<rparr>))"
    unfolding resetVisitedLocations_afterRemoveItem_def
    by (simp split: reply.splits; blast)
  with Reset_removeItem reset_failed reset_done show ?thesis
    by blast
qed

lemmas effect_defs = fetchData_def fetchData_catch_def setLocations_def setVisitedLocations_def
  alert_def handleLocationUpdate_afterVisit_def handleLocationVisit_catch_def

lemma points_step:
  assumes "points s = calculatePoints (locations s) (visitedLocations s)"
    and "step gd ev s = Some s'"
  shows "points s' = calculatePoints (locations s') (visitedLocations s')"
  using assms(2)
proof (cases rule: step_cases)
  case (position coords)
  show ?thesis
    by (cases rule: handleLocationUpdate_cases [of s gd coords])
      (simp_all add: position assms(1))
next
  case reset
  with assms(1) show ?thesis by (simp add: resetVisitedLocations_def)
next
  case (settled i r)
  from settled(3) assms(1) show ?thesis
    by (cases rule: resume_cases) (simp_all add: effect_defs split: error.splits option.splits)
qed

lemma points_mount:
  "points (mount pid storage) =
     calculatePoints (locations (mount pid storage)) (visitedLocations (mount pid storage))"
  by (simp add: mount_def fetchData_def calculatePoints_def)

lemma points_reachable:
  "run gd evs (mount pid storage) = Some s \<Longrightarrow>
     points s = calculatePoints (locations s) (visitedLocations s)"
  by (rule run_invariant [where I = "\<lambda>s. points s = calculatePoints (locations s) (visitedLocations s)"])
    (auto simp: points_mount intro: points_step)

section \<open>Sums of points\<close>

lemma foldl_add_filter:
  "foldl (\<lambda>sum loc. if P loc then sum + f loc else sum) a xs = a + sum_list (map f (filter P xs))"
  for a :: int
  by (induction xs arbitrary: a) simp_all

lemma foldl_add:
  "foldl (\<lambda>acc loc. acc + f loc) a xs = a + sum_list (map f xs)"
  for a :: int
  by (induction xs arbitrary: a) simp_all

lemma calculatePoints_ScoreTotal:
  "calculatePoints locs visited = ScoreTotal_Points locs (set visited)"
  by (simp add: calculatePoints_def ScoreTotal_Points_def Set_has_def foldl_add_filter)

lemma loaded_1_reachable:
  "run gd [Settled 0 (Projects [exampleProject]), Settled 0 (Rows [rowA, rowB]), Settled 0 Fulfilled]
     (mount ''7'' [storageKey ''7'' \<mapsto> [1]]) = Some (loaded [1])"
  by (simp add: mount_def step_defs withCoords_rowA withCoords_rowB loaded_def new_Set_def
      pointsOf_def score_points_rows Set_add_def Set_has_def Let_def)

lemma points_loaded_1: "points (loaded [1]) = 10"
  by (simp add: calculatePoints_def Set_has_def pointsOf_def locA_def locB_def)

lemma toLowerCase_examples:
  "toLowerCase (participant_scoring exampleProject) = ''sequence''"
  "toLowerCase (participant_scoring pointsProject) = ''points''"
  by (simp_all add: toLowerCase_def exampleProject_def pointsProject_def)

section \<open>Steps of the example run\<close>

lemma run_append:
  "run gd (xs @ ys) s = (case run gd xs s of None \<Rightarrow> None | Some s' \<Rightarrow> run gd ys s')"
  by (induction xs arbitrary: s) (simp_all split: option.splits)

lemma calculatePoints_examples:
  "calculatePoints [locA, locB] [] = 0" "calculatePoints [locA, locB] [1] = 10"
  "calculatePoints [locA, locB] [1, 2] = 15"
  by (simp_all add: calculatePoints_def Set_has_def pointsOf_def locA_def locB_def)

lemma loc_more_fields [simp]:
  "location_name locA = ''Great Court''" "location_name locB = ''Library''"
  "score_points locA = Some 10" "score_points locB = Some 5"
  "location_content locA = Some ''<p>Welcome to the Great Court</p>''"
  "location_content locB = None"
  by (simp_all add: locA_def locB_def)

lemma update_atA_loaded: "handleLocationUpdate surveyed atA (loaded []) = hitA"
  using surveyed_values(1)
  by (simp add: handleLocationUpdate_def handleLocationVisit_def setVisitedLocations_def
      Set_has_def Set_add_def PROXIMITY_RADIUS_def hitA_def loaded_def calculatePoints_examples
      Let_def)

lemma settle_hitA: "step gd (Settled 0 Fulfilled) hitA = Some storedA"
  by (simp add: step_def resume_def handleLocationVisit_afterSetItem_def hitA_def storedA_def
      loaded_def)

lemma storedA_reachable:
  "run surveyed
     [Settled 0 (Projects [exampleProject]), Settled 0 (Rows [rowA, rowB]), Settled 0 Fulfilled,
      PositionUpdate atA, Settled 0 Fulfilled]
     (mount ''7'' Map.empty) = Some storedA"
  using run_append [of surveyed
      "[Settled 0 (Projects [exampleProject]), Settled 0 (Rows [rowA, rowB]), Settled 0 Fulfilled]"
      "[PositionUpdate atA, Settled 0 Fulfilled]" "mount ''7'' Map.empty"]
    loaded_reachable [of surveyed] update_atA_loaded settle_hitA [of surveyed]
  by (simp add: step_def)

lemma storedA_fields [simp]:
  "visitedLocations storedA = [1]" "visitedLocationsRef storedA = [1]"
  "asyncStorage storedA = [storageKey ''7'' \<mapsto> [1]]"
  "pending storedA = [Visit_updateLocationVisit locA]" "processingRef storedA = True"
  "locations storedA = [locA, locB]" "projectId storedA = ''7''" "points storedA = 10"
  "alerts storedA = []" "currentLocationContent storedA = None"
  "requests storedA = [GetProject ''7'', GetLocations ''7'', GetLocation 1]"
  by (simp_all add: storedA_def hitA_def)

section \<open>The guard invariant\<close>

lemma filter_remove_nth:
  "i < length xs \<Longrightarrow>
     length (filter P (take i xs @ drop (Suc i) xs)) + (if P (xs ! i) then 1 else 0) =
     length (filter P xs)"
proof -
  assume "i < length xs"
  then have "xs = take i xs @ xs ! i # drop (Suc i) xs"
    by (rule id_take_nth_drop)
  then have "length (filter P xs) = length (filter P (take i xs @ xs ! i # drop (Suc i) xs))"
    by simp
  then show ?thesis by simp
qed

lemma guarded_step:
  assumes "guarded s" and "step gd ev s = Some s'"
  shows "guarded s'"
  using assms(2)
proof (cases rule: step_cases)
  case (position coords)
  show ?thesis
    by (cases rule: handleLocationUpdate_cases [of s gd coords])
      (use assms(1) in \<open>simp_all add: position guarded_def\<close>)
next
  case reset
  with assms(1) show ?thesis by (simp add: resetVisitedLocations_def guarded_def)
next
  case (settled i r)
  let ?s = "s\<lparr>pending := take i (pending s) @ drop (Suc i) (pending s)\<rparr>"
  from filter_remove_nth [OF settled(2), of isVisitTask] assms(1)
  have rest: "length (filter isVisitTask (pending ?s)) + (if isVisitTask (pending s ! i) then 1 else 0) =
      (if processingRef ?s then 1 else 0)"
    by (simp add: guarded_def)
  from settled(3) rest show ?thesis
    by (cases rule: resume_cases)
      (auto simp: guarded_def effect_defs split: error.splits option.splits if_splits)
qed

lemma guarded_reachable:
  assumes "run gd evs (mount pid storage) = Some s"
  shows "guarded s"
proof (rule run_invariant [where I = guarded, OF _ _ assms])
  show "guarded (mount pid storage)"
    by (simp add: guarded_def mount_def fetchData_def)
next
  fix s ev s'
  assume "guarded s" "step gd ev s = Some s'"
  then show "guarded s'" by (rule guarded_step)
qed

section \<open>An unlock from start to end\<close>

lemma step_settle_last:
  "pending s = ts @ [t] \<Longrightarrow> step gd (Settled (length ts) r) s = resume t r (s\<lparr>pending := ts\<rparr>)"
  by (simp add: step_def)

lemma unlock_stored:
  assumes idle: "\<not> processingRef s"
    and first: "find (eligible gd coords (visitedLocationsRef s)) (locations s) = Some loc"
  shows "\<exists>log. run gd [PositionUpdate coords, Settled (length (pending s)) Fulfilled] s =
      Some ((unlockStarted loc (s\<lparr>distanceLog := log\<rparr>))
        \<lparr>asyncStorage := (asyncStorage s)(storageKey (projectId s) \<mapsto> visitedLocationsRef s @ [loc_id loc]),
          requests := requests s @ [GetLocation (loc_id loc)],
          pending := pending s @ [Visit_updateLocationVisit loc]\<rparr>)"
proof -
  obtain log where upd: "handleLocationUpdate gd coords s = unlockStarted loc (s\<lparr>distanceLog := log\<rparr>)"
    using handleLocationUpdate_find [of gd coords s] idle first by auto
  let ?s1 = "unlockStarted loc (s\<lparr>distanceLog := log\<rparr>)"
  have p1: "pending ?s1 = pending s @ [Visit_setItem loc (visitedLocationsRef s @ [loc_id loc])]"
    by simp
  have "step gd (Settled (length (pending s)) Fulfilled) ?s1 =
      resume (Visit_setItem loc (visitedLocationsRef s @ [loc_id loc])) Fulfilled (?s1\<lparr>pending := pending s\<rparr>)"
    using p1 by (rule step_settle_last)
  also have "\<dots> = Some (?s1
        \<lparr>asyncStorage := (asyncStorage s)(storageKey (projectId s) \<mapsto> visitedLocationsRef s @ [loc_id loc]),
          requests := requests s @ [GetLocation (loc_id loc)],
          pending := pending s @ [Visit_updateLocationVisit loc]\<rparr>)"
    by (simp add: resume_def handleLocationVisit_afterSetItem_def)
  finally show ?thesis
    using upd by (intro exI [of _ log]) (simp add: step_def)
qed

lemma visit_failed_fields [simp]:
  "visitedLocations (handleLocationUpdate_afterVisit (handleLocationVisit_catch e s)) = visitedLocations s"
  "visitedLocationsRef (handleLocationUpdate_afterVisit (handleLocationVisit_catch e s)) = visitedLocationsRef s"
  "asyncStorage (handleLocationUpdate_afterVisit (handleLocationVisit_catch e s)) = asyncStorage s"
  "points (handleLocationUpdate_afterVisit (handleLocationVisit_catch e s)) = points s"
  "locations (handleLocationUpdate_afterVisit (handleLocationVisit_catch e s)) = locations s"
  "requests (handleLocationUpdate_afterVisit (handleLocationVisit_catch e s)) = requests s"
  "pending (handleLocationUpdate_afterVisit (handleLocationVisit_catch e s)) = pending s"
  "projectId (handleLocationUpdate_afterVisit (handleLocationVisit_catch e s)) = projectId s"
  "currentLocationContent (handleLocationUpdate_afterVisit (handleLocationVisit_catch e s)) =
     currentLocationContent s"
  "processingRef (handleLocationUpdate_afterVisit (handleLocationVisit_catch e s)) = False"
  by (simp_all add: handleLocationUpdate_afterVisit_def handleLocationVisit_catch_def alert_def
      split: error.splits option.splits)

lemma visit_failed_alert:
  "\<exists>message. alerts (handleLocationUpdate_afterVisit (handleLocationVisit_catch e s)) =
     alerts s @ [(''Error'', message)]"
  by (simp add: handleLocationUpdate_afterVisit_def handleLocationVisit_catch_def alert_def
      split: error.splits option.splits)

lemma resume_visit_rejected:
  "isVisitTask t \<Longrightarrow>
     resume t (Rejected e) s = Some (handleLocationUpdate_afterVisit (handleLocationVisit_catch e s))"
  by (cases t)
    (simp_all add: resume_def handleLocationVisit_afterSetItem_def
      handleLocationVisit_afterUpdateLocationVisit_def handleLocationVisit_afterCreateTracking_def)

lemma resume_visit_not_found:
  "resume (Visit_updateLocationVisit location) (Rows []) s =
     Some (handleLocationUpdate_afterVisit (handleLocationVisit_catch (Error None) s))"
  by (simp add: resume_def handleLocationVisit_afterUpdateLocationVisit_def)

lemma unlock_then_failure:
  assumes idle: "\<not> processingRef s"
    and first: "find (eligible gd coords (visitedLocationsRef s)) (locations s) = Some loc"
    and failure: "remoteFailure (length (pending s)) failure"
  shows "\<exists>s'. run gd ([PositionUpdate coords, Settled (length (pending s)) Fulfilled] @ failure) s = Some s' \<and>
      visitedLocations s' = visitedLocationsRef s @ [loc_id loc] \<and>
      visitedLocationsRef s' = visitedLocationsRef s @ [loc_id loc] \<and>
      asyncStorage s' (storageKey (projectId s)) = Some (visitedLocationsRef s @ [loc_id loc]) \<and>
      points s' = calculatePoints (locations s) (visitedLocationsRef s @ [loc_id loc]) \<and>
      locations s' = locations s \<and>
      currentLocationContent s' = currentLocationContent s \<and>
      (\<exists>message. alerts s' = alerts s @ [(''Error'', message)]) \<and>
      \<not> processingRef s'"
proof -
  let ?n = "length (pending s)"
  let ?u = "visitedLocationsRef s @ [loc_id loc]"
  obtain log where stored:
    "run gd [PositionUpdate coords, Settled ?n Fulfilled] s =
      Some ((unlockStarted loc (s\<lparr>distanceLog := log\<rparr>))
        \<lparr>asyncStorage := (asyncStorage s)(storageKey (projectId s) \<mapsto> ?u),
          requests := requests s @ [GetLocation (loc_id loc)],
          pending := pending s @ [Visit_updateLocationVisit loc]\<rparr>)"
    (is "_ = Some ?s2")
    using unlock_stored [OF idle first] by blast
  have p2: "pending ?s2 = pending s @ [Visit_updateLocationVisit loc]" by simp
  have run2: "run gd ([PositionUpdate coords, Settled ?n Fulfilled] @ failure) s = run gd failure ?s2"
    using stored by (simp only: run_append option.case)
  let ?s2' = "?s2\<lparr>pending := pending s\<rparr>"
  from failure consider (rejected) e where "failure = [Settled ?n (Rejected e)]"
    | (not_found) "failure = [Settled ?n (Rows [])]"
    | (tracking) row rows e where "failure = [Settled ?n (Rows (row # rows)), Settled ?n (Rejected e)]"
    by (auto simp: remoteFailure_def)
  then show ?thesis
  proof cases
    case (rejected e)
    have "run gd failure ?s2 = Some (handleLocationUpdate_afterVisit (handleLocationVisit_catch e ?s2'))"
      unfolding rejected using step_settle_last [OF p2, of gd "Rejected e"]
      by (simp add: resume_visit_rejected)
    with run2 visit_failed_alert [of e ?s2'] show ?thesis by simp
  next
    case not_found
    have "run gd failure ?s2 =
        Some (handleLocationUpdate_afterVisit (handleLocationVisit_catch (Error None) ?s2'))"
      unfolding not_found using step_settle_last [OF p2, of gd "Rows []"]
      by (simp add: resume_visit_not_found)
    with run2 visit_failed_alert [of "Error None" ?s2'] show ?thesis by simp
  next
    case (tracking row rows e)
    let ?s3 = "?s2'\<lparr>requests := requests ?s2' @ [CreateTracking (loc_id loc)],
                    pending := pending s @ [Visit_createTracking loc]\<rparr>"
    have s3: "step gd (Settled ?n (Rows (row # rows))) ?s2 = Some ?s3"
      using step_settle_last [OF p2, of gd "Rows (row # rows)"]
      by (simp add: resume_def handleLocationVisit_afterUpdateLocationVisit_def)
    have p3: "pending ?s3 = pending s @ [Visit_createTracking loc]" by simp
    let ?s3' = "?s3\<lparr>pending := pending s\<rparr>"
    have "step gd (Settled ?n (Rejected e)) ?s3 =
        Some (handleLocationUpdate_afterVisit (handleLocationVisit_catch e ?s3'))"
      using step_settle_last [OF p3, of gd "Rejected e"] by (simp add: resume_visit_rejected)
    with s3 have "run gd failure ?s2 =
        Some (handleLocationUpdate_afterVisit (handleLocationVisit_catch e ?s3'))"
      unfolding tracking by simp
    with run2 visit_failed_alert [of e ?s3'] show ?thesis by simp
  qed
qed

lemma unlock_then_success:
  assumes idle: "\<not> processingRef s"
    and first: "find (eligible gd coords (visitedLocationsRef s)) (locations s) = Some loc"
  shows "\<exists>s'. run gd [PositionUpdate coords, Settled (length (pending s)) Fulfilled,
                      Settled (length (pending s)) (Rows (row # rows)),
                      Settled (length (pending s)) Fulfilled] s = Some s' \<and>
      visitedLocations s' = visitedLocationsRef s @ [loc_id loc] \<and>
      currentLocationContent s' = location_content loc \<and>
      alerts s' = alerts s @ [(''Location Unlock'', ''You have unlocked '' @ location_name loc @ ''!'')] \<and>
      requests s' = requests s @ [GetLocation (loc_id loc), CreateTracking (loc_id loc)] \<and>
      \<not> processingRef s'"
proof -
  let ?n = "length (pending s)"
  let ?u = "visitedLocationsRef s @ [loc_id loc]"
  obtain log where stored:
    "run gd [PositionUpdate coords, Settled ?n Fulfilled] s =
      Some ((unlockStarted loc (s\<lparr>distanceLog := log\<rparr>))
        \<lparr>asyncStorage := (asyncStorage s)(storageKey (projectId s) \<mapsto> ?u),
          requests := requests s @ [GetLocation (loc_id loc)],
          pending := pending s @ [Visit_updateLocationVisit loc]\<rparr>)"
    (is "_ = Some ?s2")
    using unlock_stored [OF idle first] by blast
  have p2: "pending ?s2 = pending s @ [Visit_updateLocationVisit loc]" by simp
  let ?rest = "[Settled ?n (Rows (row # rows)), Settled ?n Fulfilled]"
  have run2: "run gd ([PositionUpdate coords, Settled ?n Fulfilled] @ ?rest) s = run gd ?rest ?s2"
    using stored by (simp only: run_append option.case)
  let ?s2' = "?s2\<lparr>pending := pending s\<rparr>"
  let ?s3 = "?s2'\<lparr>requests := requests ?s2' @ [CreateTracking (loc_id loc)],
                  pending := pending s @ [Visit_createTracking loc]\<rparr>"
  have s3: "step gd (Settled ?n (Rows (row # rows))) ?s2 = Some ?s3"
    using step_settle_last [OF p2, of gd "Rows (row # rows)"]
    by (simp add: resume_def handleLocationVisit_afterUpdateLocationVisit_def)
  have p3: "pending ?s3 = pending s @ [Visit_createTracking loc]" by simp
  let ?s4 = "handleLocationUpdate_afterVisit
      (alert ''Location Unlock'' (''You have unlocked '' @ location_name loc @ ''!'')
         (?s3\<lparr>pending := pending s, currentLocationContent := location_content loc\<rparr>))"
  have "step gd (Settled ?n Fulfilled) ?s3 = Some ?s4"
    using step_settle_last [OF p3, of gd Fulfilled]
    by (simp add: resume_def handleLocationVisit_afterCreateTracking_def)
  with s3 have "run gd ?rest ?s2 = Some ?s4" by simp
  with run2 show ?thesis
    by (simp add: handleLocationUpdate_afterVisit_def alert_def)
qed

lemma find_A: "find (eligible surveyed atA (visitedLocationsRef (loaded []))) (locations (loaded [])) = Some locA"
  using eligible_A by simp

lemma failedA_reachable:
  "run surveyed [PositionUpdate atA, Settled 0 Fulfilled, Settled 0 (Rejected (Error None))] (loaded []) =
     Some failedA"
  using update_atA_loaded settle_hitA [of surveyed]
  by (simp add: step_def resume_def handleLocationVisit_afterUpdateLocationVisit_def
      handleLocationUpdate_afterVisit_def handleLocationVisit_catch_def alert_def failedA_def
      storedA_def hitA_def)

lemma unlockedA_reachable:
  "run surveyed [PositionUpdate atA, Settled 0 Fulfilled, Settled 0 (Rows [rowA]), Settled 0 Fulfilled]
     (loaded []) = Some unlockedA"
  using update_atA_loaded settle_hitA [of surveyed]
  by (simp add: step_def resume_def handleLocationVisit_afterUpdateLocationVisit_def
      handleLocationVisit_afterCreateTracking_def
      handleLocationUpdate_afterVisit_def alert_def unlockedA_def storedA_def hitA_def)

lemma failedA_fields [simp]:
  "visitedLocations failedA = [1]" "asyncStorage failedA = [storageKey ''7'' \<mapsto> [1]]"
  "points failedA = 10" "currentLocationContent failedA = None" "processingRef failedA = False"
  "alerts failedA = [(''Error'', ''Unable to process location access. Please try again later.'')]"
  "locations failedA = [locA, locB]"
  by (simp_all add: failedA_def)

lemma unlockedA_fields [simp]:
  "visitedLocations unlockedA = [1]"
  "currentLocationContent unlockedA = Some ''<p>Welcome to the Great Court</p>''"
  "processingRef unlockedA = False"
  "alerts unlockedA = [(''Location Unlock'', ''You have unlocked Great Court!'')]"
  by (simp_all add: unlockedA_def)

text \<open>The state an unlock ends in, for every way it can end, and the states it passes.\<close>

lemma unlock_success_state:
  assumes idle: "\<not> processingRef s"
    and first: "find (eligible gd coords (visitedLocationsRef s)) (locations s) = Some loc"
  shows "\<exists>s'. run gd [PositionUpdate coords, Settled (length (pending s)) Fulfilled,
                      Settled (length (pending s)) (Rows (row # rows)),
                      Settled (length (pending s)) Fulfilled] s = Some s' \<and>
      visitedLocations s' = visitedLocationsRef s @ [loc_id loc] \<and>
      visitedLocationsRef s' = visitedLocationsRef s @ [loc_id loc] \<and>
      asyncStorage s' = (asyncStorage s)(storageKey (projectId s) \<mapsto> visitedLocationsRef s @ [loc_id loc]) \<and>
      points s' = calculatePoints (locations s) (visitedLocationsRef s @ [loc_id loc]) \<and>
      requests s' = requests s @ [GetLocation (loc_id loc), CreateTracking (loc_id loc)] \<and>
      locations s' = locations s \<and> pending s' = pending s \<and> projectId s' = projectId s \<and>
      \<not> processingRef s'"
proof -
  let ?n = "length (pending s)"
  let ?u = "visitedLocationsRef s @ [loc_id loc]"
  obtain log where stored:
    "run gd [PositionUpdate coords, Settled ?n Fulfilled] s =
      Some ((unlockStarted loc (s\<lparr>distanceLog := log\<rparr>))
        \<lparr>asyncStorage := (asyncStorage s)(storageKey (projectId s) \<mapsto> ?u),
          requests := requests s @ [GetLocation (loc_id loc)],
          pending := pending s @ [Visit_updateLocationVisit loc]\<rparr>)"
    (is "_ = Some ?s2")
    using unlock_stored [OF idle first] by blast
  have p2: "pending ?s2 = pending s @ [Visit_updateLocationVisit loc]" by simp
  let ?rest = "[Settled ?n (Rows (row # rows)), Settled ?n Fulfilled]"
  have run2: "run gd ([PositionUpdate coords, Settled ?n Fulfilled] @ ?rest) s = run gd ?rest ?s2"
    using stored by (simp only: run_append option.case)
  let ?s2' = "?s2\<lparr>pending := pending s\<rparr>"
  let ?s3 = "?s2'\<lparr>requests := requests ?s2' @ [CreateTracking (loc_id loc)],
                  pending := pending s @ [Visit_createTracking loc]\<rparr>"
  have s3: "step gd (Settled ?n (Rows (row # rows))) ?s2 = Some ?s3"
    using step_settle_last [OF p2, of gd "Rows (row # rows)"]
    by (simp add: resume_def handleLocationVisit_afterUpdateLocationVisit_def)
  have p3: "pending ?s3 = pending s @ [Visit_createTracking loc]" by simp
  let ?s4 = "handleLocationUpdate_afterVisit
      (alert ''Location Unlock'' (''You have unlocked '' @ location_name loc @ ''!'')
         (?s3\<lparr>pending := pending s, currentLocationContent := location_content loc\<rparr>))"
  have "step gd (Settled ?n Fulfilled) ?s3 = Some ?s4"
    using step_settle_last [OF p3, of gd Fulfilled]
    by (simp add: resume_def handleLocationVisit_afterCreateTracking_def)
  with s3 have "run gd ?rest ?s2 = Some ?s4" by simp
  with run2 show ?thesis
    by (simp add: handleLocationUpdate_afterVisit_def alert_def)
qed

lemma unlock_failure_state:
  assumes idle: "\<not> processingRef s"
    and first: "find (eligible gd coords (visitedLocationsRef s)) (locations s) = Some loc"
    and failure: "remoteFailure (length (pending s)) failure"
  shows "\<exists>s'. run gd (PositionUpdate coords # Settled (length (pending s)) Fulfilled # failure) s = Some s' \<and>
      visitedLocations s' = visitedLocationsRef s @ [loc_id loc] \<and>
      visitedLocationsRef s' = visitedLocationsRef s @ [loc_id loc] \<and>
      locations s' = locations s \<and> pending s' = pending s \<and>
      \<not> processingRef s'"
proof -
  let ?n = "length (pending s)"
  let ?u = "visitedLocationsRef s @ [loc_id loc]"
  obtain log where stored:
    "run gd [PositionUpdate coords, Settled ?n Fulfilled] s =
      Some ((unlockStarted loc (s\<lparr>distanceLog := log\<rparr>))
        \<lparr>asyncStorage := (asyncStorage s)(storageKey (projectId s) \<mapsto> ?u),
          requests := requests s @ [GetLocation (loc_id loc)],
          pending := pending s @ [Visit_updateLocationVisit loc]\<rparr>)"
    (is "_ = Some ?s2")
    using unlock_stored [OF idle first] by blast
  have p2: "pending ?s2 = pending s @ [Visit_updateLocationVisit loc]" by simp
  have run2: "run gd (PositionUpdate coords # Settled ?n Fulfilled # failure) s = run gd failure ?s2"
    using stored run_append [of gd "[PositionUpdate coords, Settled ?n Fulfilled]" failure s]
    by simp
  let ?s2' = "?s2\<lparr>pending := pending s\<rparr>"
  from failure consider (rejected) e where "failure = [Settled ?n (Rejected e)]"
    | (not_found) "failure = [Settled ?n (Rows [])]"
    | (tracking) row rows e where "failure = [Settled ?n (Rows (row # rows)), Settled ?n (Rejected e)]"
    by (auto simp: remoteFailure_def)
  then show ?thesis
  proof cases
    case (rejected e)
    have "run gd failure ?s2 = Some (handleLocationUpdate_afterVisit (handleLocationVisit_catch e ?s2'))"
      unfolding rejected using step_settle_last [OF p2, of gd "Rejected e"]
      by (simp add: resume_visit_rejected)
    with run2 show ?thesis by simp
  next
    case not_found
    have "run gd failure ?s2 =
        Some (handleLocationUpdate_afterVisit (handleLocationVisit_catch (Error None) ?s2'))"
      unfolding not_found using step_settle_last [OF p2, of gd "Rows []"]
      by (simp add: resume_visit_not_found)
    with run2 show ?thesis by simp
  next
    case (tracking row rows e)
    let ?s3 = "?s2'\<lparr>requests := requests ?s2' @ [CreateTracking (loc_id loc)],
                    pending := pending s @ [Visit_createTracking loc]\<rparr>"
    have s3: "step gd (Settled ?n (Rows (row # rows))) ?s2 = Some ?s3"
      using step_settle_last [OF p2, of gd "Rows (row # rows)"]
      by (simp add: resume_def handleLocationVisit_afterUpdateLocationVisit_def)
    have p3: "pending ?s3 = pending s @ [Visit_createTracking loc]" by simp
    let ?s3' = "?s3\<lparr>pending := pending s\<rparr>"
    have "step gd (Settled ?n (Rejected e)) ?s3 =
        Some (handleLocationUpdate_afterVisit (handleLocationVisit_catch e ?s3'))"
      using step_settle_last [OF p3, of gd "Rejected e"] by (simp add: resume_visit_rejected)
    with s3 have "run gd failure ?s2 =
        Some (handleLocationUpdate_afterVisit (handleLocationVisit_catch e ?s3'))"
      unfolding tracking by simp
    with run2 show ?thesis by simp
  qed
qed

lemma unlock_unstored_state:
  assumes idle: "\<not> processingRef s"
    and first: "find (eligible gd coords (visitedLocationsRef s)) (locations s) = Some loc"
  shows "\<exists>s'. run gd [PositionUpdate coords, Settled (length (pending s)) (Rejected e)] s = Some s' \<and>
      visitedLocations s' = visitedLocationsRef s @ [loc_id loc] \<and>
      visitedLocationsRef s' = visitedLocationsRef s @ [loc_id loc] \<and>
      locations s' = locations s \<and> pending s' = pending s \<and>
      \<not> processingRef s'"
proof -
  obtain log where upd: "handleLocationUpdate gd coords s = unlockStarted loc (s\<lparr>distanceLog := log\<rparr>)"
    using handleLocationUpdate_find [of gd coords s] idle first by auto
  let ?s1 = "unlockStarted loc (s\<lparr>distanceLog := log\<rparr>)"
  have p1: "pending ?s1 = pending s @ [Visit_setItem loc (visitedLocationsRef s @ [loc_id loc])]"
    by simp
  have "step gd (Settled (length (pending s)) (Rejected e)) ?s1 =
      Some (handleLocationUpdate_afterVisit (handleLocationVisit_catch e (?s1\<lparr>pending := pending s\<rparr>)))"
    using step_settle_last [OF p1, of gd "Rejected e"] by (simp add: resume_visit_rejected)
  with upd show ?thesis by (simp add: step_def)
qed

lemma visit_ends:
  assumes idle: "\<not> processingRef s"
    and first: "find (eligible gd coords (visitedLocationsRef s)) (locations s) = Some loc"
    and ends: "visitEnds (length (pending s)) evs"
  shows "\<exists>s'. run gd (PositionUpdate coords # evs) s = Some s' \<and>
      visitedLocations s' = visitedLocationsRef s @ [loc_id loc] \<and>
      visitedLocationsRef s' = visitedLocationsRef s @ [loc_id loc] \<and>
      locations s' = locations s \<and> pending s' = pending s \<and>
      \<not> processingRef s'"
proof -
  let ?n = "length (pending s)"
  from ends consider (unstored) e where "evs = [Settled ?n (Rejected e)]"
    | (failed) failure where "remoteFailure ?n failure" "evs = Settled ?n Fulfilled # failure"
    | (succeeded) row rows where "evs = [Settled ?n Fulfilled, Settled ?n (Rows (row # rows)), Settled ?n Fulfilled]"
    by (auto simp: visitEnds_def)
  then show ?thesis
  proof cases
    case (unstored e)
    show ?thesis unfolding unstored by (rule unlock_unstored_state [OF idle first])
  next
    case (failed failure)
    show ?thesis unfolding failed(2) by (rule unlock_failure_state [OF idle first failed(1)])
  next
    case (succeeded row rows)
    from unlock_success_state [OF idle first, of row rows] show ?thesis
      unfolding succeeded by blast
  qed
qed

lemma visit_prefix:
  assumes "visitEnds n evs" and "k < length evs"
  shows "take k evs = [] \<or> take k evs = [Settled n Fulfilled] \<or>
    (\<exists>row rows. take k evs = [Settled n Fulfilled, Settled n (Rows (row # rows))])"
proof -
  from assms(1) consider (unstored) e where "evs = [Settled n (Rejected e)]"
    | (rejected) e where "evs = [Settled n Fulfilled, Settled n (Rejected e)]"
    | (not_found) "evs = [Settled n Fulfilled, Settled n (Rows [])]"
    | (tracking) row rows e where
        "evs = [Settled n Fulfilled, Settled n (Rows (row # rows)), Settled n (Rejected e)]"
    | (succeeded) row rows where
        "evs = [Settled n Fulfilled, Settled n (Rows (row # rows)), Settled n Fulfilled]"
    by (auto simp: visitEnds_def remoteFailure_def)
  then show ?thesis
  proof cases
    case (unstored e)
    with assms(2) show ?thesis by simp
  next
    case (rejected e)
    with assms(2) show ?thesis by (cases k) simp_all
  next
    case not_found
    with assms(2) show ?thesis by (cases k) simp_all
  next
    case (tracking row rows e)
    with assms(2) have "k = 0 \<or> k = 1 \<or> k = 2" by auto
    with tracking show ?thesis by (auto simp: numeral_2_eq_2)
  next
    case (succeeded row rows)
    with assms(2) have "k = 0 \<or> k = 1 \<or> k = 2" by auto
    with succeeded show ?thesis by (auto simp: numeral_2_eq_2)
  qed
qed

lemma unlock_in_progress:
  assumes idle: "\<not> processingRef s"
    and first: "find (eligible gd coords (visitedLocationsRef s)) (locations s) = Some loc"
    and pre: "pre = [] \<or> pre = [Settled (length (pending s)) Fulfilled] \<or>
      (\<exists>row rows. pre = [Settled (length (pending s)) Fulfilled,
                         Settled (length (pending s)) (Rows (row # rows))])"
  shows "\<exists>s'. run gd (PositionUpdate coords # pre) s = Some s' \<and>
      visitedLocations s' = visitedLocationsRef s @ [loc_id loc] \<and> processingRef s'"
proof -
  let ?n = "length (pending s)"
  let ?u = "visitedLocationsRef s @ [loc_id loc]"
  from pre consider (hit) "pre = []" | (stored) "pre = [Settled ?n Fulfilled]"
    | (tracking) row rows where "pre = [Settled ?n Fulfilled, Settled ?n (Rows (row # rows))]"
    by blast
  then show ?thesis
  proof cases
    case hit
    obtain log where "handleLocationUpdate gd coords s = unlockStarted loc (s\<lparr>distanceLog := log\<rparr>)"
      using handleLocationUpdate_find [of gd coords s] idle first by auto
    with hit show ?thesis by (simp add: step_def)
  next
    case stored
    from unlock_stored [OF idle first] show ?thesis unfolding stored by auto
  next
    case (tracking row rows)
    obtain log where stored:
      "run gd [PositionUpdate coords, Settled ?n Fulfilled] s =
        Some ((unlockStarted loc (s\<lparr>distanceLog := log\<rparr>))
          \<lparr>asyncStorage := (asyncStorage s)(storageKey (projectId s) \<mapsto> ?u),
            requests := requests s @ [GetLocation (loc_id loc)],
            pending := pending s @ [Visit_updateLocationVisit loc]\<rparr>)"
      (is "_ = Some ?s2")
      using unlock_stored [OF idle first] by blast
    have p2: "pending ?s2 = pending s @ [Visit_updateLocationVisit loc]" by simp
    have run2: "run gd ([PositionUpdate coords, Settled ?n Fulfilled] @ [Settled ?n (Rows (row # rows))]) s =
        run gd [Settled ?n (Rows (row # rows))] ?s2"
      using stored by (simp only: run_append option.case)
    let ?s2' = "?s2\<lparr>pending := pending s\<rparr>"
    let ?s3 = "?s2'\<lparr>requests := requests ?s2' @ [CreateTracking (loc_id loc)],
                    pending := pending s @ [Visit_createTracking loc]\<rparr>"
    have "step gd (Settled ?n (Rows (row # rows))) ?s2 = Some ?s3"
      using step_settle_last [OF p2, of gd "Rows (row # rows)"]
      by (simp add: resume_def handleLocationVisit_afterUpdateLocationVisit_def)
    then have "run gd [Settled ?n (Rows (row # rows))] ?s2 = Some ?s3" by simp
    with run2 show ?thesis unfolding tracking by simp
  qed
qed



section \<open>Requests of a reset\<close>

lemma fetch_not_visit: "isFetchTask t \<Longrightarrow> \<not> isVisitTask t"
  by (cases t) simp_all

lemma resume_fetch_writes:
  assumes "isFetchTask t" and "resume t r s = Some s'"
  shows "writes s' = writes s"
  using assms(2) assms(1) fetch_not_visit [OF assms(1)]
  by (cases rule: resume_cases) (simp_all add: writes_def effect_defs)

lemma resume_reset:
  "resume Reset_removeItem r s =
     Some (case r of
             Rejected e \<Rightarrow> alert ''Error'' ''Unable to reset access history.'' s
           | _ \<Rightarrow> fetchData
                    (alert ''Reset Successfully''
                       ''Your access history has been cleared, you can start over!''
                       ((setVisitedLocations []
                           (s\<lparr>asyncStorage := (asyncStorage s)(storageKey (projectId s) := None)\<rparr>))
                          \<lparr>visitedLocationsRef := []\<rparr>)))"
  by (simp add: resume_def resetVisitedLocations_afterRemoveItem_def split: reply.splits)

lemma resetA_reachable:
  "run gd [PressReset, Settled 0 Fulfilled] unlockedA = Some resetA"
  by (simp add: step_def resume_def resetVisitedLocations_def resetVisitedLocations_afterRemoveItem_def
      effect_defs unlockedA_def storedA_def hitA_def loaded_def resetA_def calculatePoints_examples)

section \<open>Containment of the visited set\<close>

lemma loc_id_withCoords [simp]: "loc_id (withCoords row) = loc_id row"
  by (simp add: withCoords_def Let_def)

lemma ids_withCoords [simp]: "ids (map withCoords directory) = ids directory"
  by (simp add: ids_def image_image)

lemma set_Set_add [simp]: "set (Set_add s x) = insert x (set s)"
  by (auto simp: Set_add_def Set_has_def)

lemma set_new_Set_aux: "set (foldl Set_add acc xs) = set acc \<union> set xs"
  by (induction xs arbitrary: acc) auto

lemma set_new_Set [simp]: "set (new_Set xs) = set xs"
  by (simp add: new_Set_def set_new_Set_aux)

lemma taskContained_cong:
  "locations s' = locations s \<Longrightarrow> taskContained directory s' t = taskContained directory s t"
  by (cases t) simp_all

lemma list_all_taskContained_cong:
  assumes "locations s' = locations s"
  shows "list_all (taskContained directory s') ts = list_all (taskContained directory s) ts"
  using taskContained_cong [OF assms, of directory] by (induction ts) simp_all

lemma list_all_remove:
  "list_all P xs \<Longrightarrow> list_all P (take i xs @ drop (Suc i) xs)"
  by (auto simp: list_all_iff dest: in_set_takeD in_set_dropD)

lemma taskContained_loaded:
  "taskContained directory s t \<Longrightarrow> locations s' = map withCoords directory \<Longrightarrow>
     taskContained directory s' t"
  by (cases t) simp_all

lemma list_all_taskContained_loaded:
  "list_all (taskContained directory s) ts \<Longrightarrow> locations s' = map withCoords directory \<Longrightarrow>
     list_all (taskContained directory s') ts"
  by (induction ts) (auto intro: taskContained_loaded)

lemma contained_ids:
  "contained directory pid s \<Longrightarrow> ids (locations s) \<subseteq> ids directory"
  by (auto simp: contained_def ids_def)

lemma contained_frame:
  assumes "contained directory pid s"
    and "projectId s' = projectId s" "locations s' = locations s"
    and "visitedLocations s' = visitedLocations s" "visitedLocationsRef s' = visitedLocationsRef s"
    and "asyncStorage s' = asyncStorage s"
    and "list_all (taskContained directory s) (pending s')"
  shows "contained directory pid s'"
  using assms list_all_taskContained_cong [OF assms(3), of directory "pending s'"]
  by (simp add: contained_def)

lemma contained_resume:
  assumes inv: "contained directory pid s"
    and task: "taskContained directory s t"
    and reply: "\<And>rows. t = FetchData_getLocations \<Longrightarrow> r = Rows rows \<Longrightarrow> rows = directory"
    and res: "resume t r s = Some s'"
  shows "contained directory pid s'"
  using res
proof (cases rule: resume_cases)
  case fetch_failed
  with inv show ?thesis
    by (intro contained_frame [OF inv]) (simp_all add: effect_defs contained_def)
next
  case project_missing
  with inv show ?thesis
    by (intro contained_frame [OF inv]) (simp_all add: effect_defs contained_def)
next
  case (project_found p)
  with inv show ?thesis
    by (intro contained_frame [OF inv]) (simp_all add: effect_defs contained_def)
next
  case (locations_found allLocations)
  with reply have all: "allLocations = directory" by simp
  have loc: "locations s' = map withCoords directory"
    using locations_found all by (simp add: effect_defs)
  from inv have "list_all (taskContained directory s) (pending s)"
    by (simp add: contained_def)
  then have "list_all (taskContained directory s') (pending s)"
    using loc by (rule list_all_taskContained_loaded)
  moreover have "pending s' = pending s @ [FetchData_getItem directory]"
    using locations_found all by (simp add: effect_defs)
  moreover have "visitedLocations s' = visitedLocations s" "visitedLocationsRef s' = visitedLocationsRef s"
    "asyncStorage s' = asyncStorage s" "projectId s' = projectId s"
    using locations_found by (simp_all add: effect_defs)
  ultimately show ?thesis
    using inv contained_ids [OF inv] loc by (auto simp: contained_def)
next
  case (visited_loaded allLocations)
  with task have loc: "locations s = map withCoords directory" by simp
  have fields: "locations s' = locations s" "projectId s' = projectId s"
    "asyncStorage s' = asyncStorage s" "pending s' = pending s"
    "visitedLocationsRef s' = visitedLocations s'"
    "visitedLocations s' =
       new_Set (case asyncStorage s (storageKey (projectId s)) of None \<Rightarrow> [] | Some a \<Rightarrow> a)"
    using visited_loaded by (simp_all add: effect_defs)
  from inv have "set (visitedLocations s') \<subseteq> ids directory"
    unfolding fields by (auto simp: contained_def split: option.splits)
  with inv fields loc list_all_taskContained_cong [OF fields(1), of directory "pending s"]
  show ?thesis by (simp add: contained_def)
next
  case (visit_failed e)
  with inv show ?thesis
    by (intro contained_frame [OF inv]) (simp_all add: contained_def)
next
  case (stored location arr)
  with task have arr: "set arr \<subseteq> ids directory" by simp
  have fields: "locations s' = locations s" "projectId s' = projectId s"
    "visitedLocations s' = visitedLocations s" "visitedLocationsRef s' = visitedLocationsRef s"
    "asyncStorage s' = (asyncStorage s)(storageKey (projectId s) \<mapsto> arr)"
    "pending s' = pending s @ [Visit_updateLocationVisit location]"
    using stored by simp_all
  with inv arr list_all_taskContained_cong [OF fields(1), of directory "pending s"]
  show ?thesis by (simp add: contained_def)
next
  case (visit_recorded location)
  with inv show ?thesis
    by (intro contained_frame [OF inv]) (simp_all add: contained_def)
next
  case (tracked location)
  with inv show ?thesis
    by (intro contained_frame [OF inv]) (simp_all add: effect_defs contained_def)
next
  case reset_failed
  with inv show ?thesis
    by (intro contained_frame [OF inv]) (simp_all add: effect_defs contained_def)
next
  case reset_done
  have fields: "locations s' = locations s" "projectId s' = projectId s"
    "visitedLocations s' = []" "visitedLocationsRef s' = []"
    "asyncStorage s' = (asyncStorage s)(storageKey (projectId s) := None)"
    "pending s' = pending s @ [FetchData_getProject]"
    using reset_done by (simp_all add: effect_defs)
  with inv list_all_taskContained_cong [OF fields(1), of directory "pending s"]
  show ?thesis by (simp add: contained_def)
qed

lemma contained_step:
  assumes inv: "contained directory pid s"
    and ok: "serves directory s ev"
    and st: "step gd ev s = Some s'"
  shows "contained directory pid s'"
  using st
proof (cases rule: step_cases)
  case (position coords)
  show ?thesis
  proof (cases rule: handleLocationUpdate_cases [of s gd coords])
    case dropped
    with position inv show ?thesis by simp
  next
    case (none log)
    with position inv show ?thesis
      by (intro contained_frame [OF inv]) (simp_all add: contained_def)
  next
    case (hit log loc)
    from hit(2) have "loc_id loc \<in> ids (locations s)"
      by (auto simp: ids_def)
    moreover have "list_all (taskContained directory (s\<lparr>distanceLog := log\<rparr>)) (pending s)"
      using inv list_all_taskContained_cong [of "s\<lparr>distanceLog := log\<rparr>" s directory "pending s"]
      by (simp add: contained_def)
    then have "list_all (taskContained directory s') (pending s)"
      using list_all_taskContained_cong [of s' "s\<lparr>distanceLog := log\<rparr>" directory "pending s"]
        position hit(4)
      by simp
    ultimately show ?thesis
      using inv contained_ids [OF inv] position hit(4)
      by (auto simp: contained_def)
  qed
next
  case reset
  with inv show ?thesis
    by (intro contained_frame [OF inv]) (simp_all add: resetVisitedLocations_def contained_def)
next
  case (settled i r)
  let ?s = "s\<lparr>pending := take i (pending s) @ drop (Suc i) (pending s)\<rparr>"
  from inv have all: "list_all (taskContained directory s) (pending s)"
    by (simp add: contained_def)
  with settled(2) have t: "taskContained directory s (pending s ! i)"
    by (simp add: list_all_length)
  have "list_all (taskContained directory s) (pending ?s)"
    using list_all_remove [OF all] by simp
  with inv have inv': "contained directory pid ?s"
    by (intro contained_frame [OF inv]) simp_all
  from t have t': "taskContained directory ?s (pending s ! i)"
    using taskContained_cong [of ?s s directory "pending s ! i"] by simp
  have rep: "rows = directory" if "pending s ! i = FetchData_getLocations" "r = Rows rows" for rows
    using ok settled(1,2) that by (simp add: serves_def)
  from inv' t' rep settled(3) show ?thesis
    by (rule contained_resume)
qed

lemma contained_mount:
  assumes "case storage (storageKey pid) of None \<Rightarrow> True | Some a \<Rightarrow> set a \<subseteq> ids directory"
  shows "contained directory pid (mount pid storage)"
  using assms by (simp add: contained_def mount_def fetchData_def)

lemma contained_run:
  assumes "contained directory pid s" and "served gd directory evs s" and "run gd evs s = Some s'"
  shows "contained directory pid s'"
  using assms
proof (induction evs arbitrary: s)
  case Nil
  then show ?case by simp
next
  case (Cons ev evs)
  from Cons.prems(3) obtain s1 where s1: "step gd ev s = Some s1" "run gd evs s1 = Some s'"
    by (auto split: option.splits)
  with Cons.prems(2) have ok: "serves directory s ev" "served gd directory evs s1"
    by simp_all
  from Cons.prems(1) ok(1) s1(1) have "contained directory pid s1"
    by (rule contained_step)
  with Cons.IH ok(2) s1(2) show ?case by blast
qed

lemma loaded_99_reachable:
  "run gd [Settled 0 (Projects [exampleProject]), Settled 0 (Rows [rowA, rowB]), Settled 0 Fulfilled]
     (mount ''7'' [storageKey ''7'' \<mapsto> [99]]) = Some (loaded [99])"
  by (simp add: mount_def step_defs withCoords_rowA withCoords_rowB loaded_def new_Set_def
      pointsOf_def score_points_rows Set_add_def Set_has_def Let_def)

lemma served_append:
  "served gd directory (xs @ ys) s =
     (served gd directory xs s \<and>
      (case run gd xs s of None \<Rightarrow> True | Some s' \<Rightarrow> served gd directory ys s'))"
  by (induction xs arbitrary: s) (auto split: option.splits)

lemma served_load:
  "served gd [rowA, rowB]
     [Settled 0 (Projects [exampleProject]), Settled 0 (Rows [rowA, rowB]), Settled 0 Fulfilled]
     (mount ''7'' Map.empty)"
  by (simp add: serves_def mount_def step_defs Let_def)

lemma served_unlock:
  "served surveyed [rowA, rowB]
     [PositionUpdate atA, Settled 0 Fulfilled, Settled 0 (Rows [rowA]), Settled 0 Fulfilled]
     (loaded [])"
  using update_atA_loaded settle_hitA [of surveyed]
  by (simp add: serves_def step_def resume_def handleLocationVisit_afterUpdateLocationVisit_def
      storedA_def hitA_def split: option.splits)

section \<open>Parsing malformed positions\<close>

lemma parse_malformed:
  "parsePositionString (Some ''(abc, def)'') = (Coord NaN, Coord NaN)"
  "parsePositionString (Some ''(,)'') = (Coord (Num 0), Coord (Num 0))"
  "parsePositionString (Some ''abc'') = (Coord NaN, Undefined)"
  by (simp_all add: parsePositionString_def replaceParens_def element_def number_defs)

lemma withCoords_malformed:
  "withCoords rowN = \<lparr>loc_id = 3, location_name = ''Unreadable'',
      location_position = Some ''(abc, def)'', score_points = Some 20, location_content = None,
      latitude = Coord NaN, longitude = Coord NaN\<rparr>"
  "withCoords rowM = \<lparr>loc_id = 4, location_name = ''Unplaced'',
      location_position = Some ''(,)'', score_points = Some 20, location_content = None,
      latitude = Coord (Num 0), longitude = Coord (Num 0)\<rparr>"
  by (simp_all add: withCoords_def rowN_def rowM_def parse_malformed)

lemma parse_origin: "parsePositionString (Some ''(0, 0)'') = (Coord (Num 0), Coord (Num 0))"
  by (simp add: parsePositionString_def replaceParens_def element_def number_defs)

lemma withCoords_rowZ:
  "withCoords rowZ = \<lparr>loc_id = 5, location_name = ''Null Island'',
      location_position = Some ''(0, 0)'', score_points = Some 5, location_content = None,
      latitude = Coord (Num 0), longitude = Coord (Num 0)\<rparr>"
  by (simp add: withCoords_def rowZ_def parse_origin)

section \<open>C1: one unlock per position update\<close>

text \<open>
  Claim C1 holds on the code but for its test of the coordinates. The loop of
  \<open>handleLocationUpdate\<close> tests a location's coordinates with \<open>== null\<close>, not for validity:
  it takes the first location, in the order of \<open>locations\<close>, that is \<open>eligible\<close>.

  What the code does, for every position update. The visited set gains no identifier
  while the guard is set or when no location is eligible, and otherwise the identifier of
  the first eligible location. When an idle screen starts that unlock and a second
  location with another identifier is eligible too, then however the visit ends (\<open>visitEnds\<close>:
  the write to AsyncStorage is rejected, a remote call fails, or all calls succeed): at
  every await of the visit the visited set holds the first identifier and not the second,
  the guard is set and a further position update changes nothing; when the visit has
  ended the visited set still holds the first identifier and not the second, the
  locations and the other pending tasks are as before, the guard is cleared, and the next
  update at the same position unlocks the second location.

  Where the claim fails. With the rows at \<open>(,)\<close> and \<open>(0, 0)\<close>, in this order, and the device
  at latitude 0, longitude 0, the update unlocks the location at \<open>(,)\<close>, whose position is
  malformed, and the location with valid coordinates stays locked. The defect is that of
  claim C4: \<open>parsePositionString\<close> returns \<open>null\<close> for an absent or empty string only.
\<close>

theorem C1_one_unlock_per_update_cycle:
  "visitedLocationsRef (handleLocationUpdate gd coords s) =
     (if processingRef s then visitedLocationsRef s
      else case find (eligible gd coords (visitedLocationsRef s)) (locations s) of
             None \<Rightarrow> visitedLocationsRef s
           | Some l1 \<Rightarrow> visitedLocationsRef s @ [loc_id l1]) \<and>
   visitedLocations (handleLocationUpdate gd coords s) =
     (if processingRef s then visitedLocations s
      else case find (eligible gd coords (visitedLocationsRef s)) (locations s) of
             None \<Rightarrow> visitedLocations s
           | Some l1 \<Rightarrow> visitedLocationsRef s @ [loc_id l1]) \<and>
   (\<forall>l1 l2 evs.
       \<not> processingRef s \<and>
       find (eligible gd coords (visitedLocationsRef s)) (locations s) = Some l1 \<and>
       find (\<lambda>l. eligible gd coords (visitedLocationsRef s) l \<and> loc_id l \<noteq> loc_id l1) (locations s) =
         Some l2 \<and>
       visitEnds (length (pending s)) evs \<longrightarrow>
       (\<forall>k<length evs.
          \<exists>s'. run gd (PositionUpdate coords # take k evs) s = Some s' \<and>
            visitedLocations s' = visitedLocationsRef s @ [loc_id l1] \<and>
            processingRef s' \<and> handleLocationUpdate gd coords' s' = s') \<and>
       (\<exists>s'. run gd (PositionUpdate coords # evs) s = Some s' \<and>
          visitedLocations s' = visitedLocationsRef s @ [loc_id l1] \<and>
          visitedLocationsRef s' = visitedLocationsRef s @ [loc_id l1] \<and>
          \<not> Set_has (visitedLocations s') (loc_id l2) \<and>
          locations s' = locations s \<and>
          pending s' = pending s \<and>
          \<not> processingRef s' \<and>
          visitedLocations (handleLocationUpdate gd coords s') =
            visitedLocationsRef s @ [loc_id l1, loc_id l2])) \<and>
   (case run originSurvey
           [Settled 0 (Projects [exampleProject]), Settled 0 (Rows [rowM, rowZ]), Settled 0 Fulfilled,
            PositionUpdate equator, Settled 0 Fulfilled, Settled 0 (Rows [rowM]), Settled 0 Fulfilled]
           (mount ''7'' Map.empty) of
      None \<Rightarrow> False
    | Some s' \<Rightarrow>
        map location_position (locations s') = [Some ''(,)'', Some ''(0, 0)''] \<and>
        map loc_id (locations s') = [4, 5] \<and>
        visitedLocations s' = [4] \<and>
        asyncStorage s' (storageKey ''7'') = Some [4] \<and>
        requests s' = [GetProject ''7'', GetLocations ''7'', GetLocation 4, CreateTracking 4] \<and>
        alerts s' = [(''Location Unlock'', ''You have unlocked Unplaced!'')] \<and>
        \<not> processingRef s' \<and> pending s' = [])"
proof -
  obtain log where upd: "handleLocationUpdate gd coords s =
     (if processingRef s then s
      else case find (eligible gd coords (visitedLocationsRef s)) (locations s) of
             None \<Rightarrow> s\<lparr>distanceLog := log\<rparr>
           | Some loc \<Rightarrow> unlockStarted loc (s\<lparr>distanceLog := log\<rparr>))"
    using handleLocationUpdate_find by blast
  have ref: "visitedLocationsRef (handleLocationUpdate gd coords s) =
     (if processingRef s then visitedLocationsRef s
      else case find (eligible gd coords (visitedLocationsRef s)) (locations s) of
             None \<Rightarrow> visitedLocationsRef s
           | Some l1 \<Rightarrow> visitedLocationsRef s @ [loc_id l1])"
    unfolding upd by (simp split: option.splits)
  have state: "visitedLocations (handleLocationUpdate gd coords s) =
     (if processingRef s then visitedLocations s
      else case find (eligible gd coords (visitedLocationsRef s)) (locations s) of
             None \<Rightarrow> visitedLocations s
           | Some l1 \<Rightarrow> visitedLocationsRef s @ [loc_id l1])"
    unfolding upd by (simp split: option.splits)
  have cycle: "(\<forall>k<length evs.
          \<exists>s'. run gd (PositionUpdate coords # take k evs) s = Some s' \<and>
            visitedLocations s' = visitedLocationsRef s @ [loc_id l1] \<and>
            processingRef s' \<and> handleLocationUpdate gd coords' s' = s') \<and>
       (\<exists>s'. run gd (PositionUpdate coords # evs) s = Some s' \<and>
          visitedLocations s' = visitedLocationsRef s @ [loc_id l1] \<and>
          visitedLocationsRef s' = visitedLocationsRef s @ [loc_id l1] \<and>
          \<not> Set_has (visitedLocations s') (loc_id l2) \<and>
          locations s' = locations s \<and>
          pending s' = pending s \<and>
          \<not> processingRef s' \<and>
          visitedLocations (handleLocationUpdate gd coords s') =
            visitedLocationsRef s @ [loc_id l1, loc_id l2])"
    if idle: "\<not> processingRef s"
      and first: "find (eligible gd coords (visitedLocationsRef s)) (locations s) = Some l1"
      and second: "find (\<lambda>l. eligible gd coords (visitedLocationsRef s) l \<and> loc_id l \<noteq> loc_id l1)
          (locations s) = Some l2"
      and ends: "visitEnds (length (pending s)) evs"
    for l1 l2 evs
  proof -
    have dropped: "\<exists>s'. run gd (PositionUpdate coords # take k evs) s = Some s' \<and>
            visitedLocations s' = visitedLocationsRef s @ [loc_id l1] \<and>
            processingRef s' \<and> handleLocationUpdate gd coords' s' = s'"
      if "k < length evs" for k
      using unlock_in_progress [OF idle first visit_prefix [OF ends that]]
        update_while_guarded [of _ gd coords']
      by blast
    from visit_ends [OF idle first ends] obtain s' where
      run: "run gd (PositionUpdate coords # evs) s = Some s'"
      and v: "visitedLocations s' = visitedLocationsRef s @ [loc_id l1]"
      and r: "visitedLocationsRef s' = visitedLocationsRef s @ [loc_id l1]"
      and l: "locations s' = locations s" and p: "pending s' = pending s"
      and g: "\<not> processingRef s'"
      by blast
    from find_holds [OF second]
    have "eligible gd coords (visitedLocationsRef s) l2" "loc_id l2 \<noteq> loc_id l1"
      by simp_all
    then have locked: "\<not> Set_has (visitedLocations s') (loc_id l2)"
      unfolding v by (simp add: eligible_def Set_has_def)
    have next_first: "find (eligible gd coords (visitedLocationsRef s')) (locations s') = Some l2"
      unfolding r l find_eligible_snoc by (rule second)
    obtain log' where "handleLocationUpdate gd coords s' =
       (if processingRef s' then s'
        else case find (eligible gd coords (visitedLocationsRef s')) (locations s') of
               None \<Rightarrow> s'\<lparr>distanceLog := log'\<rparr>
             | Some loc \<Rightarrow> unlockStarted loc (s'\<lparr>distanceLog := log'\<rparr>))"
      using handleLocationUpdate_find by blast
    with g next_first r have "visitedLocations (handleLocationUpdate gd coords s') =
        visitedLocationsRef s @ [loc_id l1, loc_id l2]"
      by simp
    with dropped run v r locked l p g show ?thesis by blast
  qed
  have malformed: "case run originSurvey
           [Settled 0 (Projects [exampleProject]), Settled 0 (Rows [rowM, rowZ]), Settled 0 Fulfilled,
            PositionUpdate equator, Settled 0 Fulfilled, Settled 0 (Rows [rowM]), Settled 0 Fulfilled]
           (mount ''7'' Map.empty) of
      None \<Rightarrow> False
    | Some s' \<Rightarrow>
        map location_position (locations s') = [Some ''(,)'', Some ''(0, 0)''] \<and>
        map loc_id (locations s') = [4, 5] \<and>
        visitedLocations s' = [4] \<and>
        asyncStorage s' (storageKey ''7'') = Some [4] \<and>
        requests s' = [GetProject ''7'', GetLocations ''7'', GetLocation 4, CreateTracking 4] \<and>
        alerts s' = [(''Location Unlock'', ''You have unlocked Unplaced!'')] \<and>
        \<not> processingRef s' \<and> pending s' = []"
    by (simp add: mount_def step_defs new_Set_def Let_def handleLocationUpdate_def
        withCoords_malformed withCoords_rowZ Set_has_def Set_add_def handleLocationVisit_def
        originSurvey_def tableDistance_def equator_def PROXIMITY_RADIUS_def)
  from ref state cycle malformed show ?thesis by blast
qed

theorem C1_witness:
  "\<not> processingRef (loaded []) \<and>
   find (eligible surveyed atA (visitedLocationsRef (loaded []))) (locations (loaded [])) = Some locA \<and>
   find (\<lambda>l. eligible surveyed atA (visitedLocationsRef (loaded [])) l \<and> loc_id l \<noteq> loc_id locA)
     (locations (loaded [])) = Some locB \<and>
   visitEnds (length (pending (loaded [])))
     [Settled 0 Fulfilled, Settled 0 (Rows [rowA]), Settled 0 Fulfilled] \<and>
   run surveyed [PositionUpdate atA, Settled 0 Fulfilled] (loaded []) = Some storedA \<and>
   visitedLocations storedA = [1] \<and> processingRef storedA \<and>
   handleLocationUpdate surveyed north49 storedA = storedA \<and>
   run surveyed [PositionUpdate atA, Settled 0 Fulfilled, Settled 0 (Rows [rowA]), Settled 0 Fulfilled]
     (loaded []) = Some unlockedA \<and>
   visitedLocations unlockedA = [1] \<and>
   \<not> Set_has (visitedLocations unlockedA) 2 \<and>
   \<not> processingRef unlockedA \<and>
   visitedLocations (handleLocationUpdate surveyed atA unlockedA) = [1, 2]"
proof -
  have h: "\<not> processingRef (loaded []) \<and>
      find (eligible surveyed atA (visitedLocationsRef (loaded []))) (locations (loaded [])) = Some locA \<and>
      find (\<lambda>l. eligible surveyed atA (visitedLocationsRef (loaded [])) l \<and> loc_id l \<noteq> loc_id locA)
        (locations (loaded [])) = Some locB \<and>
      visitEnds (length (pending (loaded [])))
        [Settled 0 Fulfilled, Settled 0 (Rows [rowA]), Settled 0 Fulfilled]"
    using eligible_A eligible_B by (simp add: visitEnds_def)
  note C1 = C1_one_unlock_per_update_cycle
    [where gd = surveyed and coords = atA and s = "loaded []" and coords' = north49,
      THEN conjunct2, THEN conjunct2, THEN conjunct1, rule_format, OF h]
  have stored: "run surveyed [PositionUpdate atA, Settled 0 Fulfilled] (loaded []) = Some storedA"
    using update_atA_loaded settle_hitA [of surveyed] by (simp add: step_def)
  from C1 [THEN conjunct1, rule_format, of 1] obtain s1 where
    "run surveyed [PositionUpdate atA, Settled 0 Fulfilled] (loaded []) = Some s1"
    "handleLocationUpdate surveyed north49 s1 = s1"
    by auto
  with stored have dropped: "handleLocationUpdate surveyed north49 storedA = storedA"
    by simp
  from C1 [THEN conjunct2] obtain s' where
    run: "run surveyed
        (PositionUpdate atA # [Settled 0 Fulfilled, Settled 0 (Rows [rowA]), Settled 0 Fulfilled])
        (loaded []) = Some s'"
    and rest: "visitedLocations s' = visitedLocationsRef (loaded []) @ [loc_id locA]"
      "\<not> Set_has (visitedLocations s') (loc_id locB)" "\<not> processingRef s'"
      "visitedLocations (handleLocationUpdate surveyed atA s') =
         visitedLocationsRef (loaded []) @ [loc_id locA, loc_id locB]"
    by blast
  from run unlockedA_reachable have "s' = unlockedA" by simp
  with h stored dropped rest unlockedA_reachable show ?thesis by simp
qed

section \<open>C2: unlocking is idempotent\<close>




section \<open>C3: how long the guard is held\<close>

text \<open>
  In the example run the visited set and AsyncStorage hold location 1 and
  \<open>updateLocationVisit\<close> has not replied yet: the guard is still set, and the update
  that finds the second location 15 metres away is dropped.
\<close>

theorem C3_counterexample:
  "run surveyed
     [Settled 0 (Projects [exampleProject]), Settled 0 (Rows [rowA, rowB]), Settled 0 Fulfilled,
      PositionUpdate atA, Settled 0 Fulfilled]
     (mount ''7'' Map.empty) = Some storedA \<and>
   visitedLocations storedA = [1] \<and>
   asyncStorage storedA (storageKey ''7'') = Some [1] \<and>
   pending storedA = [Visit_updateLocationVisit locA] \<and>
   processingRef storedA \<and>
   eligible surveyed atA (visitedLocationsRef storedA) locB \<and>
   handleLocationUpdate surveyed atA storedA = storedA"
  using storedA_reachable surveyed_values(2)
  by (simp add: eligible_def Set_has_def PROXIMITY_RADIUS_def handleLocationUpdate_def)

text \<open>
  Claim C3, amended. The guard is held for the whole of \<open>handleLocationVisit\<close>: in every
  state of a run it is set exactly when a task of \<open>handleLocationVisit\<close> is pending, and
  while the write to AsyncStorage, \<open>updateLocationVisit\<close> or \<open>createTracking\<close> is awaited
  the guard is set and a position update changes nothing.
\<close>

theorem C3_guard_held_until_visit_ends:
  assumes "run gd evs (mount pid storage) = Some s"
  shows "processingRef s = (\<exists>t\<in>set (pending s). isVisitTask t) \<and>
    (Visit_setItem location arr \<in> set (pending s) \<or>
     Visit_updateLocationVisit location \<in> set (pending s) \<or>
     Visit_createTracking location \<in> set (pending s) \<longrightarrow>
       processingRef s \<and> handleLocationUpdate gd coords s = s)"
proof -
  from guarded_reachable [OF assms]
  have g: "length (filter isVisitTask (pending s)) = (if processingRef s then 1 else 0)"
    by (simp add: guarded_def)
  have inv: "processingRef s = (\<exists>t\<in>set (pending s). isVisitTask t)"
  proof (cases "processingRef s")
    case True
    with g have "filter isVisitTask (pending s) \<noteq> []" by auto
    with True show ?thesis by (simp add: filter_empty_conv)
  next
    case False
    with g have "filter isVisitTask (pending s) = []" by simp
    with False show ?thesis by (simp add: filter_empty_conv)
  qed
  have "processingRef s \<and> handleLocationUpdate gd coords s = s"
    if "Visit_setItem location arr \<in> set (pending s) \<or>
        Visit_updateLocationVisit location \<in> set (pending s) \<or>
        Visit_createTracking location \<in> set (pending s)"
  proof -
    from that have "\<exists>t\<in>set (pending s). isVisitTask t"
      by (metis isVisitTask.simps(1,2,3))
    with inv have "processingRef s" by simp
    then show ?thesis by (simp add: handleLocationUpdate_def)
  qed
  with inv show ?thesis by blast
qed

theorem C3_witness:
  "run surveyed
     [Settled 0 (Projects [exampleProject]), Settled 0 (Rows [rowA, rowB]), Settled 0 Fulfilled,
      PositionUpdate atA, Settled 0 Fulfilled]
     (mount ''7'' Map.empty) = Some storedA \<and>
   Visit_updateLocationVisit locA \<in> set (pending storedA) \<and>
   processingRef storedA = (\<exists>t\<in>set (pending storedA). isVisitTask t) \<and>
   processingRef storedA \<and>
   handleLocationUpdate surveyed north49 storedA = storedA"
  using C3_guard_held_until_visit_ends [OF storedA_reachable, of locA "[]" north49] storedA_reachable
  by simp

section \<open>C4: locations without a readable position\<close>

text \<open>
  Claim C4 fails on the code for a malformed position that contains a comma.
  \<open>parsePositionString\<close> gives \<open>null\<close> for an absent or empty string only: \<open>(abc, def)\<close>
  parses to NaN and NaN, \<open>(,)\<close> to 0 and 0, and neither is \<open>== null\<close>. So the loop
  computes and logs a distance for such a location, and the location at \<open>(,)\<close> is
  unlocked by a device at latitude 0, longitude 0.
\<close>

theorem C4_malformed_position_is_evaluated:
  "parsePositionString (Some ''(abc, def)'') = (Coord NaN, Coord NaN) \<and>
   parsePositionString (Some ''(,)'') = (Coord (Num 0), Coord (Num 0)) \<and>
   distanceLog (handleLocationUpdate getDistance coords
      (s\<lparr>processingRef := False, locations := [withCoords rowN], visitedLocationsRef := []\<rparr>)) \<noteq>
     distanceLog s \<and>
   (case run originSurvey
           [Settled 0 (Projects [exampleProject]), Settled 0 (Rows [rowN, rowM]), Settled 0 Fulfilled,
            PositionUpdate equator]
           (mount ''7'' Map.empty) of
      None \<Rightarrow> False
    | Some s' \<Rightarrow>
        distanceLog s' = [(''Unreadable'', NaN), (''Unplaced'', Num 0)] \<and>
        visitedLocations s' = [4] \<and>
        pending s' = [Visit_setItem (withCoords rowM) [4]])"
proof -
  have log: "distanceLog (handleLocationUpdate getDistance coords
      (s\<lparr>processingRef := False, locations := [withCoords rowN], visitedLocationsRef := []\<rparr>)) \<noteq>
     distanceLog s"
    by (simp add: handleLocationUpdate_def withCoords_malformed Set_has_def handleLocationVisit_def
        setVisitedLocations_def Set_add_def handleLocationUpdate_afterVisit_def Let_def)
  have run: "case run originSurvey
           [Settled 0 (Projects [exampleProject]), Settled 0 (Rows [rowN, rowM]), Settled 0 Fulfilled,
            PositionUpdate equator]
           (mount ''7'' Map.empty) of
      None \<Rightarrow> False
    | Some s' \<Rightarrow>
        distanceLog s' = [(''Unreadable'', NaN), (''Unplaced'', Num 0)] \<and>
        visitedLocations s' = [4] \<and>
        pending s' = [Visit_setItem (withCoords rowM) [4]]"
    by (simp add: mount_def step_defs new_Set_def Let_def handleLocationUpdate_def
        withCoords_malformed Set_has_def Set_add_def handleLocationVisit_def originSurvey_def
        tableDistance_def equator_def PROXIMITY_RADIUS_def)
  from parse_malformed(1,2) log run show ?thesis by blast
qed

section \<open>C5: the score total\<close>

text \<open>
  The screen computes \<open>points\<close> without reading the project's scoring mode. For the
  Sequence project with locations of 10 and 5 points and location 1 visited, \<open>points\<close>
  is 10, not the count 1.
\<close>

theorem C5_counterexample:
  "toLowerCase (participant_scoring exampleProject) = ''sequence'' \<and>
   run surveyed [Settled 0 (Projects [exampleProject]), Settled 0 (Rows [rowA, rowB]), Settled 0 Fulfilled]
     (mount ''7'' [storageKey ''7'' \<mapsto> [1]]) = Some (loaded [1]) \<and>
   project (loaded [1]) = Some exampleProject \<and>
   visitedLocations (loaded [1]) = [1] \<and>
   points (loaded [1]) = 10 \<and>
   points (loaded [1]) \<noteq> ScoreTotal_Sequence (set (visitedLocations (loaded [1])))"
  using loaded_1_reachable [of surveyed] points_loaded_1 toLowerCase_examples(1)
  by (simp add: ScoreTotal_Sequence_def)

text \<open>
  Claim C5, amended. \<open>getTotalPoints\<close> returns the sum of the point values of the visited
  locations when the scoring mode is Points, and the number of visited identifiers when
  it is Sequence. The \<open>points\<close> the screen shows is, in every state of a run and under
  every scoring mode, the sum of the point values of the visited locations.
\<close>

theorem C5_score_total:
  "(toLowerCase (participant_scoring p) = ''points'' \<longrightarrow>
      getTotalPoints (p # ps) rows visitedArray = Inr (ScoreTotal_Points rows (set visitedArray))) \<and>
   (toLowerCase (participant_scoring p) = ''sequence'' \<and> distinct visitedArray \<longrightarrow>
      getTotalPoints (p # ps) rows visitedArray = Inr (ScoreTotal_Sequence (set visitedArray))) \<and>
   (run gd evs (mount pid storage) = Some s \<longrightarrow>
      points s = ScoreTotal_Points (locations s) (set (visitedLocations s)))"
proof -
  have a: "getTotalPoints (p # ps) rows visitedArray = Inr (ScoreTotal_Points rows (set visitedArray))"
    if "toLowerCase (participant_scoring p) = ''points''"
    using that by (simp add: getTotalPoints_def ScoreTotal_Points_def foldl_add)
  have b: "getTotalPoints (p # ps) rows visitedArray = Inr (ScoreTotal_Sequence (set visitedArray))"
    if "toLowerCase (participant_scoring p) = ''sequence''" "distinct visitedArray"
    using that by (simp add: getTotalPoints_def ScoreTotal_Sequence_def distinct_card)
  have c: "points s = ScoreTotal_Points (locations s) (set (visitedLocations s))"
    if "run gd evs (mount pid storage) = Some s"
    using points_reachable [OF that] by (simp add: calculatePoints_ScoreTotal)
  from a b c show ?thesis by blast
qed

theorem C5_witness:
  "toLowerCase (participant_scoring pointsProject) = ''points'' \<and>
   getTotalPoints [pointsProject] [rowA, rowB] [1] = Inr 10 \<and>
   toLowerCase (participant_scoring exampleProject) = ''sequence'' \<and> distinct [1 :: int] \<and>
   getTotalPoints [exampleProject] [rowA, rowB] [1] = Inr 1 \<and>
   run surveyed [Settled 0 (Projects [exampleProject]), Settled 0 (Rows [rowA, rowB]), Settled 0 Fulfilled]
     (mount ''7'' [storageKey ''7'' \<mapsto> [1]]) = Some (loaded [1]) \<and>
   points (loaded [1]) = 10"
proof -
  have v: "ScoreTotal_Points [rowA, rowB] (set [1]) = 10" "ScoreTotal_Sequence (set [1]) = 1"
    "ScoreTotal_Points (locations (loaded [1])) (set (visitedLocations (loaded [1]))) = 10"
    by (simp_all add: ScoreTotal_Points_def ScoreTotal_Sequence_def rowA_def rowB_def pointsOf_def
        locA_def locB_def)
  from C5_score_total [of pointsProject "[]" "[rowA, rowB]" "[1]" surveyed
      "[Settled 0 (Projects [exampleProject]), Settled 0 (Rows [rowA, rowB]), Settled 0 Fulfilled]"
      "''7''" "[storageKey ''7'' \<mapsto> [1]]" "loaded [1]"]
    C5_score_total [of exampleProject "[]" "[rowA, rowB]" "[1]" surveyed "[]" "''7''" Map.empty
      "mount ''7'' Map.empty"]
    toLowerCase_examples loaded_1_reachable [of surveyed] v
  show ?thesis by simp
qed

section \<open>C6: a failing remote call does not undo the unlock\<close>

text \<open>
  Claim C6. When \<open>updateLocationVisit\<close> or \<open>createTracking\<close> throws, the step that handles
  the error changes neither the visited set, nor AsyncStorage, nor the points. After an
  unlock from an idle screen whose remote call fails, the location's identifier is in the
  visited set and in the stored array, and the points are those of the visited set with
  it.
\<close>

theorem C6_remote_failure_keeps_local_unlock:
  "(isVisitTask t \<and> (r = Rejected e \<or> (t = Visit_updateLocationVisit location \<and> r = Rows [])) \<and>
      resume t r s = Some s' \<longrightarrow>
      visitedLocations s' = visitedLocations s \<and> visitedLocationsRef s' = visitedLocationsRef s \<and>
      asyncStorage s' = asyncStorage s \<and> points s' = points s) \<and>
   (\<not> processingRef s0 \<and>
      find (eligible gd coords (visitedLocationsRef s0)) (locations s0) = Some loc \<and>
      remoteFailure (length (pending s0)) failure \<longrightarrow>
      (\<exists>s1. run gd ([PositionUpdate coords, Settled (length (pending s0)) Fulfilled] @ failure) s0 = Some s1 \<and>
         Set_has (visitedLocations s1) (loc_id loc) \<and>
         Set_has (visitedLocationsRef s1) (loc_id loc) \<and>
         (\<exists>arr. asyncStorage s1 (storageKey (projectId s0)) = Some arr \<and> loc_id loc \<in> set arr) \<and>
         points s1 = calculatePoints (locations s1) (visitedLocations s1)))"
proof -
  have frame: "visitedLocations s' = visitedLocations s \<and> visitedLocationsRef s' = visitedLocationsRef s \<and>
      asyncStorage s' = asyncStorage s \<and> points s' = points s"
    if "isVisitTask t" "r = Rejected e \<or> (t = Visit_updateLocationVisit location \<and> r = Rows [])"
      "resume t r s = Some s'"
    using that resume_visit_rejected [of t e s] resume_visit_not_found [of location s] by auto
  have scenario: "\<exists>s1. run gd ([PositionUpdate coords, Settled (length (pending s0)) Fulfilled] @ failure) s0 = Some s1 \<and>
         Set_has (visitedLocations s1) (loc_id loc) \<and>
         Set_has (visitedLocationsRef s1) (loc_id loc) \<and>
         (\<exists>arr. asyncStorage s1 (storageKey (projectId s0)) = Some arr \<and> loc_id loc \<in> set arr) \<and>
         points s1 = calculatePoints (locations s1) (visitedLocations s1)"
    if "\<not> processingRef s0" "find (eligible gd coords (visitedLocationsRef s0)) (locations s0) = Some loc"
      "remoteFailure (length (pending s0)) failure"
  proof -
    from unlock_then_failure [OF that] obtain s1 where
      "run gd ([PositionUpdate coords, Settled (length (pending s0)) Fulfilled] @ failure) s0 = Some s1"
      "visitedLocations s1 = visitedLocationsRef s0 @ [loc_id loc]"
      "visitedLocationsRef s1 = visitedLocationsRef s0 @ [loc_id loc]"
      "asyncStorage s1 (storageKey (projectId s0)) = Some (visitedLocationsRef s0 @ [loc_id loc])"
      "points s1 = calculatePoints (locations s0) (visitedLocationsRef s0 @ [loc_id loc])"
      "locations s1 = locations s0"
      by blast
    then show ?thesis by (intro exI [of _ s1]) (simp add: Set_has_def)
  qed
  from frame scenario show ?thesis by blast
qed

theorem C6_witness:
  "isVisitTask (Visit_updateLocationVisit locA) \<and>
   resume (Visit_updateLocationVisit locA) (Rejected (Error None)) (storedA\<lparr>pending := []\<rparr>) = Some failedA \<and>
   visitedLocations failedA = visitedLocations storedA \<and>
   asyncStorage failedA = asyncStorage storedA \<and> points failedA = points storedA \<and>
   \<not> processingRef (loaded []) \<and>
   find (eligible surveyed atA (visitedLocationsRef (loaded []))) (locations (loaded [])) = Some locA \<and>
   remoteFailure (length (pending (loaded []))) [Settled 0 (Rejected (Error None))] \<and>
   run surveyed [PositionUpdate atA, Settled 0 Fulfilled, Settled 0 (Rejected (Error None))] (loaded []) =
     Some failedA \<and>
   Set_has (visitedLocations failedA) (loc_id locA) \<and>
   asyncStorage failedA (storageKey ''7'') = Some [1] \<and>
   points failedA = calculatePoints (locations failedA) (visitedLocations failedA)"
proof -
  have r: "resume (Visit_updateLocationVisit locA) (Rejected (Error None)) (storedA\<lparr>pending := []\<rparr>) =
      Some failedA"
    by (simp add: resume_def handleLocationVisit_afterUpdateLocationVisit_def
        handleLocationUpdate_afterVisit_def handleLocationVisit_catch_def alert_def failedA_def
        storedA_def hitA_def)
  have f: "remoteFailure (length (pending (loaded []))) [Settled 0 (Rejected (Error None))]"
    by (simp add: remoteFailure_def)
  from C6_remote_failure_keeps_local_unlock [of "Visit_updateLocationVisit locA" "Rejected (Error None)"
      "Error None" locA "storedA\<lparr>pending := []\<rparr>" failedA "loaded []" surveyed atA locA
      "[Settled 0 (Rejected (Error None))]"]
    r f find_A failedA_reachable
  show ?thesis by (simp add: Set_has_def calculatePoints_examples)
qed

section \<open>C7: the unlock content after a failing remote call\<close>

text \<open>
  In the example run \<open>updateLocationVisit\<close> is rejected: location 1 is visited, its
  content is never set as the current content, and the only alert is the error.
\<close>

theorem C7_counterexample:
  "location_content locA = Some ''<p>Welcome to the Great Court</p>'' \<and>
   run surveyed [PositionUpdate atA, Settled 0 Fulfilled, Settled 0 (Rejected (Error None))] (loaded []) =
     Some failedA \<and>
   visitedLocations failedA = [1] \<and>
   currentLocationContent failedA = None \<and>
   alerts failedA = [(''Error'', ''Unable to process location access. Please try again later.'')]"
  using failedA_reachable by simp

text \<open>
  Claim C7, amended. The content of the unlocked location is set, and the unlock alert
  shown, after both remote calls have succeeded. When a remote call fails the error is
  shown in an alert, the current content is left as it was, and the visited set and
  AsyncStorage keep the unlock.
\<close>

theorem C7_content_emitted_after_remote_success:
  "(\<not> processingRef s \<and> find (eligible gd coords (visitedLocationsRef s)) (locations s) = Some loc \<longrightarrow>
      (\<exists>s'. run gd [PositionUpdate coords, Settled (length (pending s)) Fulfilled,
                     Settled (length (pending s)) (Rows (row # rows)),
                     Settled (length (pending s)) Fulfilled] s = Some s' \<and>
         currentLocationContent s' = location_content loc \<and>
         alerts s' = alerts s @ [(''Location Unlock'', ''You have unlocked '' @ location_name loc @ ''!'')])) \<and>
   (\<not> processingRef s \<and> find (eligible gd coords (visitedLocationsRef s)) (locations s) = Some loc \<and>
      remoteFailure (length (pending s)) failure \<longrightarrow>
      (\<exists>s'. run gd ([PositionUpdate coords, Settled (length (pending s)) Fulfilled] @ failure) s = Some s' \<and>
         currentLocationContent s' = currentLocationContent s \<and>
         (\<exists>message. alerts s' = alerts s @ [(''Error'', message)]) \<and>
         visitedLocations s' = visitedLocationsRef s @ [loc_id loc] \<and>
         asyncStorage s' (storageKey (projectId s)) = Some (visitedLocationsRef s @ [loc_id loc])))"
proof -
  have success: "\<exists>s'. run gd [PositionUpdate coords, Settled (length (pending s)) Fulfilled,
                     Settled (length (pending s)) (Rows (row # rows)),
                     Settled (length (pending s)) Fulfilled] s = Some s' \<and>
         currentLocationContent s' = location_content loc \<and>
         alerts s' = alerts s @ [(''Location Unlock'', ''You have unlocked '' @ location_name loc @ ''!'')]"
    if "\<not> processingRef s" "find (eligible gd coords (visitedLocationsRef s)) (locations s) = Some loc"
    using unlock_then_success [OF that, where row = row and rows = rows] by blast
  have failure: "\<exists>s'. run gd ([PositionUpdate coords, Settled (length (pending s)) Fulfilled] @ failure) s = Some s' \<and>
         currentLocationContent s' = currentLocationContent s \<and>
         (\<exists>message. alerts s' = alerts s @ [(''Error'', message)]) \<and>
         visitedLocations s' = visitedLocationsRef s @ [loc_id loc] \<and>
         asyncStorage s' (storageKey (projectId s)) = Some (visitedLocationsRef s @ [loc_id loc])"
    if "\<not> processingRef s" "find (eligible gd coords (visitedLocationsRef s)) (locations s) = Some loc"
      "remoteFailure (length (pending s)) failure"
    using unlock_then_failure [OF that] by blast
  from success failure show ?thesis by blast
qed

theorem C7_witness:
  "\<not> processingRef (loaded []) \<and>
   find (eligible surveyed atA (visitedLocationsRef (loaded []))) (locations (loaded [])) = Some locA \<and>
   remoteFailure (length (pending (loaded []))) [Settled 0 (Rows [])] \<and>
   run surveyed [PositionUpdate atA, Settled 0 Fulfilled, Settled 0 (Rows [rowA]), Settled 0 Fulfilled]
     (loaded []) = Some unlockedA \<and>
   currentLocationContent unlockedA = location_content locA \<and>
   alerts unlockedA = [(''Location Unlock'', ''You have unlocked Great Court!'')] \<and>
   run surveyed [PositionUpdate atA, Settled 0 Fulfilled, Settled 0 (Rows [])] (loaded []) = Some failedA \<and>
   currentLocationContent failedA = currentLocationContent (loaded []) \<and>
   visitedLocations failedA = [1]"
proof -
  have f: "remoteFailure (length (pending (loaded []))) [Settled 0 (Rows [])]"
    by (simp add: remoteFailure_def)
  have nf: "run surveyed [PositionUpdate atA, Settled 0 Fulfilled, Settled 0 (Rows [])] (loaded []) =
      Some failedA"
    using update_atA_loaded settle_hitA [of surveyed]
    by (simp add: step_def resume_def handleLocationVisit_afterUpdateLocationVisit_def
        handleLocationUpdate_afterVisit_def handleLocationVisit_catch_def alert_def failedA_def
        storedA_def hitA_def)
  from C7_content_emitted_after_remote_success [where s = "loaded []" and gd = surveyed
      and coords = atA and loc = locA and row = rowA and rows = "[]"
      and failure = "[Settled 0 (Rows [])]"]
    f nf find_A unlockedA_reachable
  show ?thesis by simp
qed

section \<open>C8: the visited set and the project's locations\<close>

text \<open>
  \<open>fetchData\<close> loads the stored array as it is. With the identifier 99 stored for the
  project and locations 1 and 2 fetched, the visited set after initialization is \<open>[99]\<close>.
\<close>

theorem C8_counterexample:
  "run surveyed [Settled 0 (Projects [exampleProject]), Settled 0 (Rows [rowA, rowB]), Settled 0 Fulfilled]
     (mount ''7'' [storageKey ''7'' \<mapsto> [99]]) = Some (loaded [99]) \<and>
   visitedLocations (loaded [99]) = [99] \<and>
   loc_id ` set (locations (loaded [99])) = {1, 2} \<and>
   \<not> set (visitedLocations (loaded [99])) \<subseteq> loc_id ` set (locations (loaded [99]))"
  using loaded_99_reachable [of surveyed] by simp

text \<open>
  Claim C8, amended. In a session in which the backend serves one list of locations and
  the entry stored for the project at the start, if any, holds identifiers of those
  locations only, the visited set (state and ref) is, in every state of the run, a subset
  of the identifiers of the screen's locations, themselves identifiers of the served list.
\<close>

theorem C8_visited_contained:
  assumes stored: "case storage (storageKey pid) of
                     None \<Rightarrow> True
                   | Some a \<Rightarrow> set a \<subseteq> loc_id ` set directory"
    and served: "served gd directory evs (mount pid storage)"
    and run: "run gd evs (mount pid storage) = Some s"
  shows "set (visitedLocations s) \<subseteq> loc_id ` set (locations s) \<and>
         set (visitedLocationsRef s) \<subseteq> loc_id ` set (locations s) \<and>
         loc_id ` set (locations s) \<subseteq> loc_id ` set directory"
proof -
  have "contained directory pid (mount pid storage)"
    using stored contained_mount [where storage = storage and pid = pid and directory = directory]
    by (simp add: ids_def split: option.splits)
  from contained_run [OF this served run] have inv: "contained directory pid s" .
  from inv contained_ids [OF inv] show ?thesis
    by (simp add: contained_def ids_def)
qed

theorem C8_witness:
  "(case Map.empty (storageKey ''7'') of
      None \<Rightarrow> True
    | Some a \<Rightarrow> set a \<subseteq> loc_id ` set [rowA, rowB]) \<and>
   served surveyed [rowA, rowB]
     ([Settled 0 (Projects [exampleProject]), Settled 0 (Rows [rowA, rowB]), Settled 0 Fulfilled] @
      [PositionUpdate atA, Settled 0 Fulfilled, Settled 0 (Rows [rowA]), Settled 0 Fulfilled])
     (mount ''7'' Map.empty) \<and>
   run surveyed
     ([Settled 0 (Projects [exampleProject]), Settled 0 (Rows [rowA, rowB]), Settled 0 Fulfilled] @
      [PositionUpdate atA, Settled 0 Fulfilled, Settled 0 (Rows [rowA]), Settled 0 Fulfilled])
     (mount ''7'' Map.empty) = Some unlockedA \<and>
   visitedLocations unlockedA = [1] \<and>
   set (visitedLocations unlockedA) \<subseteq> loc_id ` set (locations unlockedA)"
proof -
  let ?load = "[Settled 0 (Projects [exampleProject]), Settled 0 (Rows [rowA, rowB]), Settled 0 Fulfilled]"
  let ?unlock = "[PositionUpdate atA, Settled 0 Fulfilled, Settled 0 (Rows [rowA]), Settled 0 Fulfilled]"
  have st: "case Map.empty (storageKey ''7'') of
      None \<Rightarrow> True
    | Some a \<Rightarrow> set a \<subseteq> loc_id ` set [rowA, rowB]"
    by simp
  have sv: "served surveyed [rowA, rowB] (?load @ ?unlock) (mount ''7'' Map.empty)"
    unfolding served_append using served_load [of surveyed] served_unlock loaded_reachable [of surveyed]
    by simp
  have rn: "run surveyed (?load @ ?unlock) (mount ''7'' Map.empty) = Some unlockedA"
    unfolding run_append using loaded_reachable [of surveyed] unlockedA_reachable by simp
  from C8_visited_contained [OF st sv rn] st sv rn show ?thesis by simp
qed

section \<open>C9: the proximity threshold\<close>

text \<open>
  Claim C9. The radius is 50 metres. For an idle screen and an unvisited location with
  both coordinates present, no other location being eligible: when geolib reports 49
  metres the update unlocks the location, when it reports 51 metres the update unlocks
  nothing.
\<close>

theorem C9_proximity_threshold:
  assumes idle: "\<not> processingRef s"
    and loc: "loc \<in> set (locations s)"
    and unvisited: "\<not> Set_has (visitedLocationsRef s) (loc_id loc)"
    and coords: "latitude loc = Coord la" "longitude loc = Coord lo"
    and others: "\<forall>l\<in>set (locations s). l \<noteq> loc \<longrightarrow> \<not> eligible getDistance coords (visitedLocationsRef s) l"
  shows "(getDistance coords (Coord la, Coord lo) = Num 49 \<longrightarrow>
            visitedLocations (handleLocationUpdate getDistance coords s) = visitedLocationsRef s @ [loc_id loc] \<and>
            pending (handleLocationUpdate getDistance coords s) =
              pending s @ [Visit_setItem loc (visitedLocationsRef s @ [loc_id loc])]) \<and>
         (getDistance coords (Coord la, Coord lo) = Num 51 \<longrightarrow>
            visitedLocations (handleLocationUpdate getDistance coords s) = visitedLocations s \<and>
            visitedLocationsRef (handleLocationUpdate getDistance coords s) = visitedLocationsRef s \<and>
            pending (handleLocationUpdate getDistance coords s) = pending s)"
proof -
  let ?P = "eligible getDistance coords (visitedLocationsRef s)"
  obtain log where upd: "handleLocationUpdate getDistance coords s =
     (case find ?P (locations s) of
        None \<Rightarrow> s\<lparr>distanceLog := log\<rparr>
      | Some l \<Rightarrow> unlockStarted l (s\<lparr>distanceLog := log\<rparr>))"
    using handleLocationUpdate_find [of getDistance coords s] idle by auto
  have found: "find ?P (locations s) = (if ?P loc then Some loc else None)"
    using loc others by (rule find_only)
  have el: "?P loc = js_le (getDistance coords (Coord la, Coord lo)) PROXIMITY_RADIUS"
    using unvisited coords by (simp add: eligible_def)
  show ?thesis
    unfolding upd found el by (simp add: PROXIMITY_RADIUS_def)
qed

theorem C9_witness:
  "surveyed north49 (Coord (Num (- 274975 / 10000)), Coord (Num (1530137 / 10000))) = Num 49 \<and>
   visitedLocations (handleLocationUpdate surveyed north49 (loaded [])) = [1] \<and>
   pending (handleLocationUpdate surveyed north49 (loaded [])) = [Visit_setItem locA [1]] \<and>
   surveyed north51 (Coord (Num (- 274975 / 10000)), Coord (Num (1530137 / 10000))) = Num 51 \<and>
   visitedLocations (handleLocationUpdate surveyed north51 (loaded [])) = [] \<and>
   pending (handleLocationUpdate surveyed north51 (loaded [])) = []"
proof -
  have others49: "\<forall>l\<in>set (locations (loaded [])). l \<noteq> locA \<longrightarrow>
      \<not> eligible surveyed north49 (visitedLocationsRef (loaded [])) l"
    using surveyed_values by (simp add: eligible_def PROXIMITY_RADIUS_def)
  have others51: "\<forall>l\<in>set (locations (loaded [])). l \<noteq> locA \<longrightarrow>
      \<not> eligible surveyed north51 (visitedLocationsRef (loaded [])) l"
    using surveyed_values by (simp add: eligible_def PROXIMITY_RADIUS_def)
  have d: "surveyed north49 (Coord (Num (- 274975 / 10000)), Coord (Num (1530137 / 10000))) = Num 49"
    "surveyed north51 (Coord (Num (- 274975 / 10000)), Coord (Num (1530137 / 10000))) = Num 51"
    using surveyed_values by simp_all
  have pre: "\<not> processingRef (loaded [])" "locA \<in> set (locations (loaded []))"
    "\<not> Set_has (visitedLocationsRef (loaded [])) (loc_id locA)"
    "latitude locA = Coord (Num (- 274975 / 10000))" "longitude locA = Coord (Num (1530137 / 10000))"
    by (simp_all add: Set_has_def)
  from C9_proximity_threshold [OF pre others49] C9_proximity_threshold [OF pre others51] d
  show ?thesis by simp
qed

section \<open>C10: reset changes local state only\<close>

text \<open>
  Claim C10. Pressing reset sends nothing. When \<open>removeItem\<close> is done the project's entry
  is removed from AsyncStorage (the other entries are kept), the visited set is empty,
  and the only request sent is the GET of \<open>fetchData\<close>; when \<open>removeItem\<close> fails nothing
  changes but the alerts. Neither the reset nor the \<open>fetchData\<close> it starts sends a
  request that writes to the backend.
\<close>

theorem C10_reset_is_local:
  "requests (resetVisitedLocations s) = requests s \<and>
   asyncStorage (resetVisitedLocations s) = asyncStorage s \<and>
   pending (resetVisitedLocations s) = pending s @ [Reset_removeItem] \<and>
   (\<exists>s'. run gd [PressReset, Settled (length (pending s)) r] s = Some s' \<and>
      writes s' = writes s \<and>
      (if \<exists>e. r = Rejected e
       then requests s' = requests s \<and> asyncStorage s' = asyncStorage s \<and>
            visitedLocations s' = visitedLocations s \<and> visitedLocationsRef s' = visitedLocationsRef s
       else requests s' = requests s @ [GetProject (projectId s)] \<and>
            asyncStorage s' = (asyncStorage s)(storageKey (projectId s) := None) \<and>
            visitedLocations s' = [] \<and> visitedLocationsRef s' = [] \<and>
            pending s' = pending s @ [FetchData_getProject])) \<and>
   (isFetchTask t \<and> resume t r2 s2 = Some s3 \<longrightarrow> writes s3 = writes s2)"
proof -
  have p: "pending (resetVisitedLocations s) = pending s @ [Reset_removeItem]"
    by (simp add: resetVisitedLocations_def)
  have "run gd [PressReset, Settled (length (pending s)) r] s =
      resume Reset_removeItem r ((resetVisitedLocations s)\<lparr>pending := pending s\<rparr>)"
    using step_settle_last [OF p, of gd r] by (simp add: step_def split: option.splits)
  also have "(resetVisitedLocations s)\<lparr>pending := pending s\<rparr> = s"
    by (simp add: resetVisitedLocations_def)
  finally have run: "run gd [PressReset, Settled (length (pending s)) r] s = resume Reset_removeItem r s" .
  have reset: "\<exists>s'. run gd [PressReset, Settled (length (pending s)) r] s = Some s' \<and>
      writes s' = writes s \<and>
      (if \<exists>e. r = Rejected e
       then requests s' = requests s \<and> asyncStorage s' = asyncStorage s \<and>
            visitedLocations s' = visitedLocations s \<and> visitedLocationsRef s' = visitedLocationsRef s
       else requests s' = requests s @ [GetProject (projectId s)] \<and>
            asyncStorage s' = (asyncStorage s)(storageKey (projectId s) := None) \<and>
            visitedLocations s' = [] \<and> visitedLocationsRef s' = [] \<and>
            pending s' = pending s @ [FetchData_getProject])"
    unfolding run resume_reset
    by (cases r) (simp_all add: writes_def effect_defs)
  have "requests (resetVisitedLocations s) = requests s"
    "asyncStorage (resetVisitedLocations s) = asyncStorage s"
    by (simp_all add: resetVisitedLocations_def)
  with p reset resume_fetch_writes [of t r2 s2 s3] show ?thesis by blast
qed

theorem C10_witness:
  "run surveyed [PressReset, Settled (length (pending unlockedA)) Fulfilled] unlockedA = Some resetA \<and>
   writes unlockedA = [CreateTracking 1] \<and> writes resetA = [CreateTracking 1] \<and>
   requests resetA = requests unlockedA @ [GetProject ''7''] \<and>
   asyncStorage unlockedA (storageKey ''7'') = Some [1] \<and>
   asyncStorage resetA (storageKey ''7'') = None \<and>
   visitedLocations unlockedA = [1] \<and> visitedLocations resetA = [] \<and>
   isFetchTask FetchData_getProject \<and>
   resume FetchData_getProject (Projects [exampleProject]) (resetA\<lparr>pending := []\<rparr>) =
     Some (resetA\<lparr>requests := requests resetA @ [GetLocations ''7''], pending := [FetchData_getLocations]\<rparr>) \<and>
   writes (resetA\<lparr>requests := requests resetA @ [GetLocations ''7''], pending := [FetchData_getLocations]\<rparr>) =
     [CreateTracking 1]"
proof -
  have r: "resume FetchData_getProject (Projects [exampleProject]) (resetA\<lparr>pending := []\<rparr>) =
     Some (resetA\<lparr>requests := requests resetA @ [GetLocations ''7''], pending := [FetchData_getLocations]\<rparr>)"
    by (simp add: resume_def fetchData_afterGetProject_def resetA_def unlockedA_def storedA_def
        hitA_def loaded_def)
  have v: "writes unlockedA = [CreateTracking 1]" "writes resetA = [CreateTracking 1]"
    "requests resetA = requests unlockedA @ [GetProject ''7'']"
    "asyncStorage unlockedA (storageKey ''7'') = Some [1]"
    "asyncStorage resetA (storageKey ''7'') = None" "visitedLocations resetA = []"
    "pending unlockedA = []"
    by (simp_all add: writes_def resetA_def unlockedA_def storedA_def hitA_def)
  from C10_reset_is_local [where s = unlockedA and gd = surveyed and r = Fulfilled
      and t = FetchData_getProject and ?r2.0 = "Projects [exampleProject]"
      and ?s2.0 = "resetA\<lparr>pending := []\<rparr>"
      and ?s3.0 = "resetA\<lparr>requests := requests resetA @ [GetLocations ''7''], pending := [FetchData_getLocations]\<rparr>"]
    r v resetA_reachable [of surveyed]
  show ?thesis by (simp add: writes_def)
qed

end
